theory Spec2Isabelle
  imports Complex_Main
begin

section \<open>Induced-polarization simulation: a shallow embedding\<close>

text \<open>
  The development embeds \<^verbatim>\<open>BaseIPSimulation\<close> of
  \<^verbatim>\<open>SimPEG/electromagnetics/static/induced_polarization/simulation.py\<close>:
  \<^verbatim>\<open>fields\<close>, \<^verbatim>\<open>dpred\<close>, \<^verbatim>\<open>getJ\<close>, \<^verbatim>\<open>Jvec\<close>,
  \<^verbatim>\<open>forward\<close>, \<^verbatim>\<open>Jtvec\<close>, \<^verbatim>\<open>_Jtvec\<close> and
  \<^verbatim>\<open>deleteTheseOnModelUpdate\<close>.

  Conventions.
  \<^item> A numpy array of floats is a list of reals: arithmetic is exact, rounding is not
    modelled.
  \<^item> The attributes of the instance that the methods read and write form the record
    \<open>sim\<close>; every method takes the state and returns the state it leaves behind, also
    when it raises (a Python exception does not undo earlier assignments).
  \<^item> A raised exception is the value \<open>Inl e\<close>.
  \<^item> Methods the class inherits or calls on other objects (mesh, solver, receivers,
    field object, data object) are not part of this file of the repository. They are
    the fields of the record \<open>env\<close>, total functions of the arguments the call passes
    and of the attributes the callee can read.
  \<^item> Console output (\<^verbatim>\<open>print\<close>, \<^verbatim>\<open>sys.stdout.write\<close>) is dropped.
  \<^item> A derivative method returns either a dask \<^verbatim>\<open>Delayed\<close> or an array, and the model
    keeps the two apart: \<^verbatim>\<open>da.from_delayed\<close> needs the first, an assignment into a
    numpy buffer the second.
  \<^item> A leading underscore cannot start an Isabelle name: \<^verbatim>\<open>_f\<close>, \<^verbatim>\<open>_pred\<close>,
    \<^verbatim>\<open>_Jmatrix\<close>, \<^verbatim>\<open>_Jtvec\<close>, \<^verbatim>\<open>_dc_voltage\<close>, \<^verbatim>\<open>_Ps\<close> are written with the
    prefix \<open>priv_\<close>.
\<close>

subsection \<open>Arrays\<close>

type_synonym vec = "real list"

datatype error = TypeError | ValueError | KeyError | IndexError | AttributeError

text \<open>
  A two-dimensional array is its shape, its memory order and its buffer: the list of
  its columns in Fortran order (\<open>F\<close>), the list of its rows in C order (\<open>C\<close>).
  \<^verbatim>\<open>.T\<close> is numpy's transposed view: the same buffer, read in the other order.
\<close>

datatype order = F | C

record ndarray2 =
  nrow :: nat
  ncol :: nat
  ord :: order
  lines :: "vec list"

datatype array = Vec vec | Mat ndarray2

definition zeros2 :: "nat \<Rightarrow> nat \<Rightarrow> ndarray2" where
  \<comment> \<open>\<^verbatim>\<open>np.zeros((r, c), order='F')\<close>\<close>
  "zeros2 r c = \<lparr>nrow = r, ncol = c, ord = F, lines = replicate c (replicate r 0)\<rparr>"

definition transpose2 :: "ndarray2 \<Rightarrow> ndarray2" where
  "transpose2 a =
     \<lparr>nrow = ncol a, ncol = nrow a, ord = (case ord a of F \<Rightarrow> C | C \<Rightarrow> F), lines = lines a\<rparr>"

definition T :: "array \<Rightarrow> array" where
  \<comment> \<open>\<^verbatim>\<open>x.T\<close>; a one-dimensional array is its own transpose\<close>
  "T x = (case x of Vec v \<Rightarrow> Vec v | Mat a \<Rightarrow> Mat (transpose2 a))"

definition dot :: "vec \<Rightarrow> vec \<Rightarrow> real" where
  "dot x y = sum_list (map2 (*) x y)"

definition vneg :: "vec \<Rightarrow> vec" where
  "vneg x = map uminus x"

definition vscale :: "real \<Rightarrow> vec \<Rightarrow> vec" where
  "vscale c x = map ((*) c) x"

definition aneg :: "array \<Rightarrow> array" where
  \<comment> \<open>\<^verbatim>\<open>-x\<close> on an array of either dimension\<close>
  "aneg x = (case x of Vec v \<Rightarrow> Vec (vneg v) | Mat a \<Rightarrow> Mat (a\<lparr>lines := map vneg (lines a)\<rparr>))"

text \<open>A dense matrix whose buffer has the size its shape says, and its entries.\<close>

definition mat_ok :: "ndarray2 \<Rightarrow> bool" where
  "mat_ok a \<longleftrightarrow>
     length (lines a) = (case ord a of C \<Rightarrow> nrow a | F \<Rightarrow> ncol a) \<and>
     list_all (\<lambda>l. length l = (case ord a of C \<Rightarrow> ncol a | F \<Rightarrow> nrow a)) (lines a)"

definition entry :: "ndarray2 \<Rightarrow> nat \<Rightarrow> nat \<Rightarrow> real" where
  "entry a i j = (case ord a of F \<Rightarrow> lines a ! j ! i | C \<Rightarrow> lines a ! i ! j)"

text \<open>
  What a derivative method returns: a dask \<^verbatim>\<open>Delayed\<close>, or an array. \<open>computed\<close> is
  the array itself, or the array that the \<^verbatim>\<open>Delayed\<close> computes to.
  \<^item> \<^verbatim>\<open>da.from_delayed(x, shape=..., dtype=float)\<close> reads \<^verbatim>\<open>x.key\<close>, which an array
    does not have (AttributeError); on a \<^verbatim>\<open>Delayed\<close> it gives a dask array, and
    \<^verbatim>\<open>.compute()\<close> on an expression of dask arrays evaluates the expression on the
    computed arrays.
  \<^item> \<^verbatim>\<open>-x\<close> on a \<^verbatim>\<open>Delayed\<close> is a \<^verbatim>\<open>Delayed\<close> again.
  \<^item> numpy cannot store a \<^verbatim>\<open>Delayed\<close> in a buffer of floats: its conversion to a
    float fails, and the assignment raises ValueError.
\<close>

datatype 'a dask = is_Delayed: Delayed (computed: 'a) | Plain (computed: 'a)

definition from_delayed :: "'a dask \<Rightarrow> error + 'a" where
  "from_delayed x = (case x of Delayed a \<Rightarrow> Inr a | Plain a \<Rightarrow> Inl AttributeError)"

definition vadd :: "vec \<Rightarrow> vec \<Rightarrow> error + vec" where
  \<comment> \<open>\<^verbatim>\<open>x + y\<close> on one-dimensional arrays: equal lengths, or one operand of
      length 1 broadcast over the other, else ValueError\<close>
  "vadd x y =
     (if length x = length y then Inr (map2 (+) x y)
      else if length x = 1 then Inr (map ((+) (hd x)) y)
      else if length y = 1 then Inr (map (\<lambda>a. a + hd y) x)
      else Inl ValueError)"

definition viadd :: "vec \<Rightarrow> vec \<Rightarrow> error + vec" where
  \<comment> \<open>\<^verbatim>\<open>acc += y\<close>: the accumulator keeps its shape, \<open>y\<close> is broadcast to it\<close>
  "viadd acc y =
     (if length y = length acc then Inr (map2 (+) acc y)
      else if length y = 1 then Inr (map (\<lambda>a. a + hd y) acc)
      else Inl ValueError)"

definition hstack :: "vec list \<Rightarrow> error + vec" where
  \<comment> \<open>\<^verbatim>\<open>np.hstack\<close> of one-dimensional arrays; an empty sequence raises ValueError\<close>
  "hstack xs = (if xs = [] then Inl ValueError else Inr (concat xs))"

definition row_of :: "ndarray2 \<Rightarrow> nat \<Rightarrow> vec" where
  "row_of a i = (case ord a of C \<Rightarrow> lines a ! i | F \<Rightarrow> map (\<lambda>c. c ! i) (lines a))"

definition np_dot :: "array \<Rightarrow> vec \<Rightarrow> error + vec" where
  \<comment> \<open>\<^verbatim>\<open>mkvc(np.dot(J, v))\<close> for a one-dimensional \<open>v\<close>: the inner dimensions must
      agree, else ValueError\<close>
  "np_dot J v =
     (case J of
        Mat a \<Rightarrow>
          if ncol a = length v then Inr (map (\<lambda>i. dot (row_of a i) v) [0..<nrow a])
          else Inl ValueError
      | Vec x \<Rightarrow> if length x = length v then Inr [dot x v] else Inl ValueError)"

text \<open>
  An assignment into a slice broadcasts its value to the shape of the slice. A value of
  more dimensions than the slice fits only when its leading dimensions are 1; a
  dimension of the value is the dimension of the slice, or 1. \<open>broadcast1 X n\<close> is
  the value \<open>X\<close> as an array of shape \<open>(n,)\<close>, \<open>broadcast2 X n k\<close> the columns of \<open>X\<close>
  as an array of shape \<open>(n, k)\<close>.
\<close>

definition broadcast1 :: "array \<Rightarrow> nat \<Rightarrow> error + vec" where
  "broadcast1 X n =
     (case X of
        Vec x \<Rightarrow>
          if length x = n then Inr x
          else if length x = 1 then Inr (replicate n (hd x))
          else Inl ValueError
      | Mat a \<Rightarrow>
          if mat_ok a \<and> nrow a = 1 \<and> (ncol a = n \<or> ncol a = 1)
          then Inr (map (\<lambda>j. entry a 0 (if ncol a = 1 then 0 else j)) [0..<n])
          else Inl ValueError)"

definition broadcast2 :: "array \<Rightarrow> nat \<Rightarrow> nat \<Rightarrow> error + vec list" where
  "broadcast2 X n k =
     (case X of
        Vec x \<Rightarrow>
          if length x = k then Inr (map (replicate n) x)
          else if length x = 1 then Inr (replicate k (replicate n (hd x)))
          else Inl ValueError
      | Mat a \<Rightarrow>
          if mat_ok a \<and> (nrow a = n \<or> nrow a = 1) \<and> (ncol a = k \<or> ncol a = 1)
          then Inr (map (\<lambda>j. map (\<lambda>i. entry a (if nrow a = 1 then 0 else i)
                                          (if ncol a = 1 then 0 else j)) [0..<n]) [0..<k])
          else Inl ValueError)"

definition set_col :: "ndarray2 \<Rightarrow> nat \<Rightarrow> array dask \<Rightarrow> error + ndarray2" where
  \<comment> \<open>\<^verbatim>\<open>Jtv[:, i] = X\<close> on a Fortran-ordered buffer: the index is checked first, then
      the value is converted and broadcast to one column\<close>
  "set_col a i X =
     (if ncol a \<le> i then Inl IndexError
      else case X of
        Delayed _ \<Rightarrow> Inl ValueError
      | Plain x \<Rightarrow>
          (case broadcast1 x (nrow a) of
             Inl e \<Rightarrow> Inl e
           | Inr c \<Rightarrow> Inr (a\<lparr>lines := (lines a)[i := c]\<rparr>)))"

fun write_cols :: "vec list \<Rightarrow> nat \<Rightarrow> vec list \<Rightarrow> vec list" where
  "write_cols buf i [] = buf"
| "write_cols buf i (c # cs) = write_cols (buf[i := c]) (Suc i) cs"

definition set_block :: "ndarray2 \<Rightarrow> nat \<Rightarrow> nat \<Rightarrow> array dask \<Rightarrow> error + ndarray2" where
  \<comment> \<open>\<^verbatim>\<open>Jtv[:, i:j] = X\<close> on a Fortran-ordered buffer: the slice is clipped to the
      buffer, the value is converted and broadcast to the shape of the slice\<close>
  "set_block a i j X =
     (case X of
        Delayed _ \<Rightarrow> Inl ValueError
      | Plain x \<Rightarrow>
          (case broadcast2 x (nrow a) (min j (ncol a) - min i (ncol a)) of
             Inl e \<Rightarrow> Inl e
           | Inr cs \<Rightarrow> Inr (a\<lparr>lines := write_cols (lines a) i cs\<rparr>)))"

subsection \<open>Survey, collaborators and the state of an instance\<close>

text \<open>
  A receiver carries the attributes the simulation reads (\<^verbatim>\<open>nD\<close>, \<^verbatim>\<open>projField\<close>) and
  those \<^verbatim>\<open>fields\<close> assigns (\<^verbatim>\<open>_dc_voltage\<close>, \<^verbatim>\<open>data_type\<close>, \<^verbatim>\<open>_Ps\<close>; the empty
  dictionary \<^verbatim>\<open>{}\<close> is \<open>None\<close>). A source is named by its position in
  \<^verbatim>\<open>survey.srcList\<close>, a receiver by its position in \<^verbatim>\<open>src.rxList\<close>.
\<close>

record rx =
  rx_nD :: nat
  projField :: string
  priv_dc_voltage :: "vec option"
  rx_data_type :: string
  priv_Ps :: "vec list option"

record src =
  rxList :: "rx list"

text \<open>
  The field object: \<open>Computed us\<close> holds, for every source, its solution
  \<^verbatim>\<open>f[src, self._solutionType]\<close>; \<open>Cleared\<close> is the empty list \<^verbatim>\<open>[]\<close> that
  \<^verbatim>\<open>getJ\<close> stores in \<^verbatim>\<open>self._f\<close>.
\<close>

datatype fieldobj = Computed "vec list" | Cleared

text \<open>
  The looked-up attribute \<^verbatim>\<open>f._<projField>Deriv\<close>: what it returns with
  \<^verbatim>\<open>adjoint=False\<close> (from the source, \<^verbatim>\<open>du_dm_v\<close> and \<^verbatim>\<open>v\<close>) and with
  \<^verbatim>\<open>adjoint=True\<close> (from the source and \<^verbatim>\<open>PTv\<close>: the pair \<^verbatim>\<open>df_duT, df_dmT\<close>).
\<close>

type_synonym derivfun = "(nat \<Rightarrow> vec \<Rightarrow> vec \<Rightarrow> vec) \<times> (nat \<Rightarrow> vec \<Rightarrow> vec \<times> vec)"

text \<open>
  The collaborators and the class constants. \<open>sign\<close> is \<open>1\<close> for
  \<^verbatim>\<open>Problem3D_CC\<close> and \<open>-1\<close> for \<^verbatim>\<open>Problem3D_N\<close>. Methods of the instance take
  \<^verbatim>\<open>self.model\<close> as their first argument, methods of a receiver the receiver, and
  whoever is handed the field object its solutions. \<open>solve h x\<close> is \<^verbatim>\<open>Ainv * x\<close>,
  \<open>clean h\<close> the handle after \<^verbatim>\<open>Ainv.clean()\<close>. \<open>Data\<close> is the constructor
  \<^verbatim>\<open>Data(survey, v)\<close>; the object it returns is indexed by source and receiver.

  \<^verbatim>\<open>getADeriv\<close> is called with a vector (by \<^verbatim>\<open>Jvec\<close> and by the direction branch of
  \<^verbatim>\<open>_Jtvec\<close>) and with the matrix \<^verbatim>\<open>Ainv * P.T\<close> (by the full-matrix branch of
  \<^verbatim>\<open>_Jtvec\<close>): \<open>getADeriv\<close> is the method on a vector, \<open>getADeriv_mat\<close> the
  method on a matrix, which is given as the list of its columns.
\<close>

record ('a, 'h) env =
  sign :: real
  storeJ :: bool
  data_type :: string
  getA :: "vec option \<Rightarrow> 'a"
  Solver :: "'a \<Rightarrow> 'h"
  solve :: "'h \<Rightarrow> vec \<Rightarrow> vec"
  clean :: "'h \<Rightarrow> 'h"
  getRHS :: "vec option \<Rightarrow> vec list"
  getADeriv :: "vec option \<Rightarrow> vec \<Rightarrow> vec \<Rightarrow> bool \<Rightarrow> vec dask"
  getADeriv_mat :: "vec option \<Rightarrow> vec \<Rightarrow> vec list \<Rightarrow> bool \<Rightarrow> array dask"
  getRHSDeriv :: "vec option \<Rightarrow> nat \<Rightarrow> vec \<Rightarrow> bool \<Rightarrow> vec dask"
  fieldDeriv :: "vec list \<Rightarrow> string \<Rightarrow> derivfun option"
  evalDeriv :: "rx \<Rightarrow> nat \<Rightarrow> vec list \<Rightarrow> vec \<Rightarrow> bool \<Rightarrow> vec"
  getP :: "rx \<Rightarrow> vec list \<Rightarrow> vec list"
  rx_eval :: "rx \<Rightarrow> nat \<Rightarrow> vec list \<Rightarrow> vec"
  Data :: "src list \<Rightarrow> vec \<Rightarrow> error + (nat \<Rightarrow> nat \<Rightarrow> error + vec)"

text \<open>
  The attributes of the instance. \<open>n_factor\<close> and \<open>n_forward\<close> are ghost counters:
  the number of times \<^verbatim>\<open>self.Solver(A, ...)\<close> has built a factorization and the
  number of calls of \<^verbatim>\<open>forward\<close>. No method reads them.
\<close>

record 'h sim =
  model :: "vec option"
  priv_f :: "fieldobj option"
  Ainv :: "'h option"
  priv_Jmatrix :: "array option"
  priv_pred :: "vec option"
  srcList :: "src list"
  n_factor :: nat
  n_forward :: nat

definition survey_nD :: "src list \<Rightarrow> nat" where
  \<comment> \<open>Modelled from the spec: \<^verbatim>\<open>survey.nD\<close> is a property of the survey class, which is
      not in this file; it is the total number of observations across all sources
      and receivers.\<close>
  "survey_nD srcs = sum_list (map (\<lambda>s. sum_list (map rx_nD (rxList s))) srcs)"

definition deleteTheseOnModelUpdate :: "string list" where
  "deleteTheseOnModelUpdate = []"

definition delattr :: "string \<Rightarrow> 'h sim \<Rightarrow> 'h sim" where
  \<comment> \<open>deleting an instance attribute uncovers the class attribute, which is None\<close>
  "delattr a s =
     (if a = ''_f'' then s\<lparr>priv_f := None\<rparr>
      else if a = ''Ainv'' then s\<lparr>Ainv := None\<rparr>
      else if a = ''_Jmatrix'' then s\<lparr>priv_Jmatrix := None\<rparr>
      else if a = ''_pred'' then s\<lparr>priv_pred := None\<rparr>
      else s)"

definition set_model :: "vec \<Rightarrow> 'h sim \<Rightarrow> 'h sim" where
  \<comment> \<open>Modelled from the spec: the setter behind \<^verbatim>\<open>self.model = m\<close> belongs to the base
      simulation class, which is not in this file; it deletes the attributes that
      \<^verbatim>\<open>deleteTheseOnModelUpdate\<close> lists and stores the model.\<close>
  "set_model m s = (fold delattr deleteTheseOnModelUpdate s)\<lparr>model := Some m\<rparr>"

subsection \<open>The loops of \<^verbatim>\<open>Jvec\<close> and \<^verbatim>\<open>_Jtvec\<close>\<close>

definition field_get :: "fieldobj option \<Rightarrow> nat \<Rightarrow> error + vec" where
  \<comment> \<open>\<^verbatim>\<open>f[src, self._solutionType]\<close>: None and the list \<^verbatim>\<open>[]\<close> cannot be indexed by
      a tuple (TypeError); a field object that does not know the source raises
      KeyError\<close>
  "field_get f isrc =
     (case f of
        None \<Rightarrow> Inl TypeError
      | Some Cleared \<Rightarrow> Inl TypeError
      | Some (Computed us) \<Rightarrow> if isrc < length us then Inr (us ! isrc) else Inl KeyError)"

definition solutions :: "fieldobj option \<Rightarrow> vec list" where
  "solutions f = (case f of Some (Computed us) \<Rightarrow> us | _ \<Rightarrow> [])"

fun Jvec_rxs ::
  "('a, 'h) env \<Rightarrow> vec list \<Rightarrow> nat \<Rightarrow> vec \<Rightarrow> vec \<Rightarrow> rx list \<Rightarrow> error + vec list" where
  "Jvec_rxs env us isrc du_dm_v v [] = Inr []"
| "Jvec_rxs env us isrc du_dm_v v (rx # rxs) =
     (case fieldDeriv env us (projField rx) of
        None \<Rightarrow> Inl TypeError
      | Some df_dmFun \<Rightarrow>
          (let df_dm_v = fst df_dmFun isrc du_dm_v v;
               Jv_rx = evalDeriv env rx isrc us df_dm_v False
           in case Jvec_rxs env us isrc du_dm_v v rxs of
                Inl e \<Rightarrow> Inl e
              | Inr Jv \<Rightarrow> Inr (Jv_rx # Jv)))"

fun Jvec_srcs ::
  "('a, 'h) env \<Rightarrow> 'h sim \<Rightarrow> fieldobj option \<Rightarrow> vec \<Rightarrow> nat \<Rightarrow> src list \<Rightarrow> error + vec list" where
  "Jvec_srcs env s f v isrc [] = Inr []"
| "Jvec_srcs env s f v isrc (src # srcs) =
     (case field_get f isrc of
        Inl e \<Rightarrow> Inl e
      | Inr u_src \<Rightarrow>
          (case model s of
             None \<Rightarrow> Inl AttributeError
           | Some _ \<Rightarrow>
               (case from_delayed (getADeriv env (model s) u_src v False) of
                  Inl e \<Rightarrow> Inl e
                | Inr dA_dm_v \<Rightarrow>
                    (case from_delayed (getRHSDeriv env (model s) isrc v False) of
                       Inl e \<Rightarrow> Inl e
                     | Inr dRHS_dm_v \<Rightarrow>
                         (case vadd (vneg dA_dm_v) dRHS_dm_v of
                            Inl e \<Rightarrow> Inl e
                          | Inr rhs \<Rightarrow>
                              (case Ainv s of
                                 None \<Rightarrow> Inl TypeError
                               | Some h \<Rightarrow>
                                   (case Jvec_rxs env (solutions f) isrc (solve env h rhs) v
                                           (rxList src) of
                                      Inl e \<Rightarrow> Inl e
                                    | Inr Jv_src \<Rightarrow>
                                        (case Jvec_srcs env s f v (Suc isrc) srcs of
                                           Inl e \<Rightarrow> Inl e
                                         | Inr Jv \<Rightarrow> Inr (Jv_src @ Jv)))))))))"

definition mkvc :: "array \<Rightarrow> vec" where
  \<comment> \<open>\<^verbatim>\<open>mkvc\<close> flattens in Fortran order\<close>
  "mkvc x =
     (case x of
        Vec v \<Rightarrow> v
      | Mat a \<Rightarrow> concat (case ord a of
                   F \<Rightarrow> lines a
                 | C \<Rightarrow> map (\<lambda>j. map (\<lambda>r. r ! j) (lines a)) [0..<ncol a]))"

text \<open>
  One pass of the receiver loop of \<^verbatim>\<open>_Jtvec\<close>. The loop variables are \<^verbatim>\<open>Jtv\<close> and
  \<^verbatim>\<open>istrt\<close>. \<^verbatim>\<open>_Jtvec\<close> binds \<^verbatim>\<open>Jtv\<close> to a vector exactly when \<^verbatim>\<open>v\<close> is given,
  so the last equation is never reached from it. The direction branch hands what
  \<^verbatim>\<open>getADeriv\<close> and \<^verbatim>\<open>getRHSDeriv\<close> return to \<^verbatim>\<open>da.from_delayed\<close> and computes
  their sum; the full-matrix branch negates what \<^verbatim>\<open>getADeriv\<close> returns and assigns
  it to the buffer as it is, and does not call \<^verbatim>\<open>getRHSDeriv\<close>.
\<close>

fun Jtvec_rx ::
  "('a, 'h) env \<Rightarrow> 'h sim \<Rightarrow> vec list \<Rightarrow> (nat \<Rightarrow> nat \<Rightarrow> error + vec) option \<Rightarrow> nat \<Rightarrow> vec \<Rightarrow>
   nat \<Rightarrow> rx \<Rightarrow> array \<times> nat \<Rightarrow> error + array \<times> nat" where
  "Jtvec_rx env s us (Some v) isrc u_src irx rx (Vec Jtv, istrt) =
     (case v isrc irx of
        Inl e \<Rightarrow> Inl e
      | Inr v_rx \<Rightarrow>
          (let PTv = evalDeriv env rx isrc us v_rx True in
           case fieldDeriv env us (projField rx) of
             None \<Rightarrow> Inl TypeError
           | Some df_duTFun \<Rightarrow>
               (let df_duT = fst (snd df_duTFun isrc PTv);
                    df_dmT = snd (snd df_duTFun isrc PTv)
                in case Ainv s of
                     None \<Rightarrow> Inl TypeError
                   | Some h \<Rightarrow>
                       (let ATinvdf_duT = solve env h df_duT in
                        case model s of
                          None \<Rightarrow> Inl AttributeError
                        | Some _ \<Rightarrow>
                            (case from_delayed
                                    (getADeriv env (model s) u_src ATinvdf_duT True) of
                               Inl e \<Rightarrow> Inl e
                             | Inr dA_dmT \<Rightarrow>
                                 (case from_delayed
                                         (getRHSDeriv env (model s) isrc ATinvdf_duT True) of
                                    Inl e \<Rightarrow> Inl e
                                  | Inr dRHS_dmT \<Rightarrow>
                                      (case vadd (vneg dA_dmT) dRHS_dmT of
                                         Inl e \<Rightarrow> Inl e
                                       | Inr du_dmT \<Rightarrow>
                                           (case vadd df_dmT du_dmT of
                                              Inl e \<Rightarrow> Inl e
                                            | Inr t \<Rightarrow>
                                                (case viadd Jtv t of
                                                   Inl e \<Rightarrow> Inl e
                                                 | Inr Jtv' \<Rightarrow> Inr (Vec Jtv', istrt))))))))))"
| "Jtvec_rx env s us None isrc u_src irx rx (Mat Jtv, istrt) =
     (let P = getP env rx us in
      case Ainv s of
        None \<Rightarrow> Inl TypeError
      | Some h \<Rightarrow>
          (let ATinvdf_duT = map (solve env h) P;
               dA_dmT = getADeriv_mat env (model s) u_src ATinvdf_duT True;
               iend = istrt + rx_nD rx
           in case (if rx_nD rx = 1 then set_col Jtv istrt (map_dask aneg dA_dmT)
                    else set_block Jtv istrt iend (map_dask aneg dA_dmT)) of
                Inl e \<Rightarrow> Inl e
              | Inr Jtv' \<Rightarrow> Inr (Mat Jtv', istrt + rx_nD rx)))"
| "Jtvec_rx env s us v isrc u_src irx rx acc = Inl TypeError"

fun Jtvec_rxs ::
  "('a, 'h) env \<Rightarrow> 'h sim \<Rightarrow> vec list \<Rightarrow> (nat \<Rightarrow> nat \<Rightarrow> error + vec) option \<Rightarrow> nat \<Rightarrow> vec \<Rightarrow>
   nat \<Rightarrow> array \<times> nat \<Rightarrow> rx list \<Rightarrow> error + array \<times> nat" where
  "Jtvec_rxs env s us v isrc u_src irx acc [] = Inr acc"
| "Jtvec_rxs env s us v isrc u_src irx acc (rx # rxs) =
     (case Jtvec_rx env s us v isrc u_src irx rx acc of
        Inl e \<Rightarrow> Inl e
      | Inr acc' \<Rightarrow> Jtvec_rxs env s us v isrc u_src (Suc irx) acc' rxs)"

fun Jtvec_srcs ::
  "('a, 'h) env \<Rightarrow> 'h sim \<Rightarrow> fieldobj option \<Rightarrow> (nat \<Rightarrow> nat \<Rightarrow> error + vec) option \<Rightarrow> nat \<Rightarrow>
   array \<times> nat \<Rightarrow> src list \<Rightarrow> error + array \<times> nat" where
  "Jtvec_srcs env s f v isrc acc [] = Inr acc"
| "Jtvec_srcs env s f v isrc acc (src # srcs) =
     (case field_get f isrc of
        Inl e \<Rightarrow> Inl e
      | Inr u_src \<Rightarrow>
          (case Jtvec_rxs env s (solutions f) v isrc u_src 0 acc (rxList src) of
             Inl e \<Rightarrow> Inl e
           | Inr acc' \<Rightarrow> Jtvec_srcs env s f v (Suc isrc) acc' srcs))"

definition priv_Jtvec ::
  "('a, 'h) env \<Rightarrow> vec \<Rightarrow> vec option \<Rightarrow> fieldobj option \<Rightarrow> 'h sim \<Rightarrow> error + array" where
  "priv_Jtvec env m v f s =
     (case (case v of
              Some v0 \<Rightarrow>
                (case Data env (srcList s) v0 of
                   Inl e \<Rightarrow> Inl e
                 | Inr d \<Rightarrow> Inr (Some d, (Vec (replicate (length m) 0), 0)))
            | None \<Rightarrow>
                (case model s of
                   None \<Rightarrow> Inl AttributeError
                 | Some mo \<Rightarrow>
                     Inr (None, (Mat (zeros2 (length mo) (survey_nD (srcList s))), 0)))) of
        Inl e \<Rightarrow> Inl e
      | Inr (d, acc0) \<Rightarrow>
          (case Jtvec_srcs env s f d 0 acc0 (srcList s) of
             Inl e \<Rightarrow> Inl e
           | Inr (Jtv, istrt) \<Rightarrow>
               (case v of
                  Some _ \<Rightarrow> Inr (Vec (vscale (sign env) (mkvc Jtv)))
                | None \<Rightarrow> Inr Jtv)))"

subsection \<open>The methods\<close>

text \<open>
  \<^verbatim>\<open>fields\<close>, \<^verbatim>\<open>getJ\<close>, \<^verbatim>\<open>Jvec\<close> and \<^verbatim>\<open>forward\<close> call one another:
  \<^verbatim>\<open>fields\<close> ends with \<^verbatim>\<open>forward(m, f=self._f)\<close>, \<^verbatim>\<open>forward\<close> is \<^verbatim>\<open>Jvec\<close>,
  \<^verbatim>\<open>Jvec\<close> calls \<^verbatim>\<open>getJ\<close> or \<^verbatim>\<open>fields\<close>, and \<^verbatim>\<open>getJ\<close> calls \<^verbatim>\<open>fields\<close>. The
  calls end because \<^verbatim>\<open>fields\<close> passes a field object that is not None, and a method
  that is handed one does not call \<^verbatim>\<open>fields\<close>.
\<close>

definition apparent_rx ::
  "('a, 'h) env \<Rightarrow> vec list \<Rightarrow> nat \<Rightarrow> rx \<Rightarrow> rx" where
  "apparent_rx env us isrc r =
     r\<lparr>priv_dc_voltage := Some (rx_eval env r isrc us),
       rx_data_type := data_type env,
       priv_Ps := None\<rparr>"

definition compute_fields :: "('a, 'h) env \<Rightarrow> 'h sim \<Rightarrow> 'h sim" where
  \<comment> \<open>the body of \<^verbatim>\<open>if self._f is None:\<close> in \<^verbatim>\<open>fields\<close>\<close>
  "compute_fields env s =
     (let (h, sA) =
            (case Ainv s of
               Some h \<Rightarrow> (h, s)
             | None \<Rightarrow>
                 (let A = getA env (model s); h = Solver env A
                  in (h, s\<lparr>Ainv := Some h, n_factor := Suc (n_factor s)\<rparr>)));
          RHS = getRHS env (model sA);
          u = map (solve env h) RHS;
          sF = sA\<lparr>priv_f := Some (Computed u)\<rparr>
      in if data_type env = ''apparent_chargeability''
         then sF\<lparr>srcList :=
                   map (\<lambda>(isrc, src). src\<lparr>rxList := map (apparent_rx env u isrc) (rxList src)\<rparr>)
                     (enumerate 0 (srcList sF))\<rparr>
         else sF)"

function fields :: "('a, 'h) env \<Rightarrow> vec \<Rightarrow> 'h sim \<Rightarrow> (error + fieldobj option) \<times> 'h sim"
  and getJ :: "('a, 'h) env \<Rightarrow> vec \<Rightarrow> fieldobj option \<Rightarrow> 'h sim \<Rightarrow> (error + array) \<times> 'h sim"
  and Jvec :: "('a, 'h) env \<Rightarrow> vec \<Rightarrow> vec \<Rightarrow> fieldobj option \<Rightarrow> 'h sim \<Rightarrow> (error + vec) \<times> 'h sim"
  and forward :: "('a, 'h) env \<Rightarrow> vec \<Rightarrow> fieldobj option \<Rightarrow> 'h sim \<Rightarrow> (error + vec) \<times> 'h sim"
where
  "fields env m s =
     (let s1 = (case priv_f s of Some _ \<Rightarrow> s | None \<Rightarrow> compute_fields env s)
      in case forward env m (priv_f s1) s1 of
           (Inl e, s2) \<Rightarrow> (Inl e, s2)
         | (Inr d, s2) \<Rightarrow> (Inr (priv_f s2), s2\<lparr>priv_pred := Some d\<rparr>))"
| "getJ env m f s =
     (let s0 = set_model m s in
      case priv_Jmatrix s0 of
        Some J \<Rightarrow> (Inr J, s0)
      | None \<Rightarrow>
          (case (case f of None \<Rightarrow> fields env m s0 | Some fo \<Rightarrow> (Inr (Some fo), s0)) of
             (Inl e, s1) \<Rightarrow> (Inl e, s1)
           | (Inr f1, s1) \<Rightarrow>
               (case priv_Jtvec env m None f1 s1 of
                  Inl e \<Rightarrow> (Inl e, s1)
                | Inr Jt \<Rightarrow>
                    (let s2 = s1\<lparr>priv_Jmatrix := Some (T Jt)\<rparr>;
                         s3 = s2\<lparr>priv_f := Some Cleared\<rparr>;
                         s4 = (case Ainv s3 of None \<Rightarrow> s3 | Some h \<Rightarrow> s3\<lparr>Ainv := Some (clean env h)\<rparr>)
                     in (Inr (T Jt), s4)))))"
| "Jvec env m v f s =
     (let s0 = set_model m s in
      if storeJ env then
        (case getJ env m f s0 of
           (Inl e, s1) \<Rightarrow> (Inl e, s1)
         | (Inr J, s1) \<Rightarrow>
             (case np_dot J v of
                Inl e \<Rightarrow> (Inl e, s1)
              | Inr Jv \<Rightarrow> (Inr (vscale (sign env) Jv), s1)))
      else
        (case (case f of None \<Rightarrow> fields env m s0 | Some fo \<Rightarrow> (Inr (Some fo), s0)) of
           (Inl e, s1) \<Rightarrow> (Inl e, s1)
         | (Inr f1, s1) \<Rightarrow>
             (case Jvec_srcs env s1 f1 v 0 (srcList s1) of
                Inl e \<Rightarrow> (Inl e, s1)
              | Inr Jv \<Rightarrow>
                  (case hstack Jv of
                     Inl e \<Rightarrow> (Inl e, s1)
                   | Inr x \<Rightarrow> (Inr (vscale (sign env) x), s1)))))"
| "forward env m f s = Jvec env m m f (s\<lparr>n_forward := Suc (n_forward s)\<rparr>)"
  by pat_completeness auto
termination
  apply (relation "measure (\<lambda>x. case x of
      Inl (Inl (env, m, s)) \<Rightarrow> 3
    | Inl (Inr (env, m, f, s)) \<Rightarrow> (if f = None then 4 else 0)
    | Inr (Inl (env, m, v, f, s)) \<Rightarrow> (if f = None then 5 else 1)
    | Inr (Inr (env, m, f, s)) \<Rightarrow> (if f = None then 6 else 2))")
  apply (auto simp: compute_fields_def Let_def split: option.splits if_splits)
  done

declare fields.simps [simp del] getJ.simps [simp del] Jvec.simps [simp del]
  forward.simps [simp del]

definition Jtvec ::
  "('a, 'h) env \<Rightarrow> vec \<Rightarrow> vec \<Rightarrow> fieldobj option \<Rightarrow> 'h sim \<Rightarrow> (error + array) \<times> 'h sim" where
  "Jtvec env m v f s =
     (if storeJ env then
        (case getJ env m f s of
           (Inl e, s1) \<Rightarrow> (Inl e, s1)
         | (Inr J, s1) \<Rightarrow>
             (case np_dot (T J) v of
                Inl e \<Rightarrow> (Inl e, s1)
              | Inr Jtv \<Rightarrow> (Inr (Vec (vscale (sign env) Jtv)), s1)))
      else
        (let s0 = set_model m s in
         case (case f of None \<Rightarrow> fields env m s0 | Some fo \<Rightarrow> (Inr (Some fo), s0)) of
           (Inl e, s1) \<Rightarrow> (Inl e, s1)
         | (Inr f1, s1) \<Rightarrow>
             (case priv_Jtvec env m (Some v) f1 s1 of
                Inl e \<Rightarrow> (Inl e, s1)
              | Inr Jtv \<Rightarrow> (Inr Jtv, s1))))"

definition dpred ::
  "('a, 'h) env \<Rightarrow> vec \<Rightarrow> fieldobj option \<Rightarrow> 'h sim \<Rightarrow> (error + vec option) \<times> 'h sim" where
  "dpred env m f s =
     (case f of
        None \<Rightarrow>
          (case fields env m s of
             (Inl e, s1) \<Rightarrow> (Inl e, s1)
           | (Inr f1, s1) \<Rightarrow> (Inr (priv_pred s1), s1))
      | Some _ \<Rightarrow> (Inr (priv_pred s), s))"

subsection \<open>The columns of the full Jacobian\<close>

text \<open>
  The columns of the full matrix as the specification words them: for every source,
  every receiver and every row \<open>p\<close> of its projection matrix \<^verbatim>\<open>P\<close>, the adjoint
  derivative of the system operator and the adjoint derivative of the right-hand side
  in the adjoint field direction \<^verbatim>\<open>Ainv * p\<close>, summed with the signs of the direction
  branch, in source-then-receiver order.
\<close>

definition spec_Jt_block ::
  "('a, 'h) env \<Rightarrow> vec option \<Rightarrow> vec list \<Rightarrow> 'h \<Rightarrow> nat \<Rightarrow> rx \<Rightarrow> vec list" where
  "spec_Jt_block env mo us h isrc r =
     map (\<lambda>p. let y = solve env h p
              in map2 (+) (vneg (computed (getADeriv env mo (us ! isrc) y True)))
                   (computed (getRHSDeriv env mo isrc y True)))
       (getP env r us)"

fun spec_Jt_columns ::
  "('a, 'h) env \<Rightarrow> vec option \<Rightarrow> vec list \<Rightarrow> 'h \<Rightarrow> nat \<Rightarrow> src list \<Rightarrow> vec list" where
  "spec_Jt_columns env mo us h isrc [] = []"
| "spec_Jt_columns env mo us h isrc (src # srcs) =
     concat (map (spec_Jt_block env mo us h isrc) (rxList src))
       @ spec_Jt_columns env mo us h (Suc isrc) srcs"

subsection \<open>Contracts of the collaborators\<close>

text \<open>
  The adjoint identity depends on what the collaborators compute. These predicates
  state what is asked of them, in exact arithmetic, for \<open>n\<close> mesh unknowns and \<open>nC\<close>
  cells. They are hypotheses of the theorems, not part of the code.

  The factorization solves a symmetric system: \<^verbatim>\<open>Ainv * x\<close> keeps the length and is
  self-adjoint for the dot product.
\<close>

definition solve_symmetric :: "('a, 'h) env \<Rightarrow> 'h \<Rightarrow> nat \<Rightarrow> bool" where
  "solve_symmetric env h n \<longleftrightarrow>
     (\<forall>x y. length x = n \<longrightarrow> length y = n \<longrightarrow>
        length (solve env h x) = n \<and> dot (solve env h x) y = dot x (solve env h y))"

text \<open>
  On a vector \<^verbatim>\<open>getADeriv\<close> returns a \<^verbatim>\<open>Delayed\<close>, as \<^verbatim>\<open>da.from_delayed\<close> needs, and
  what \<^verbatim>\<open>getADeriv(u, ., adjoint=True)\<close> computes is the adjoint of what
  \<^verbatim>\<open>getADeriv(u, ., adjoint=False)\<close> computes; likewise for \<^verbatim>\<open>getRHSDeriv\<close>.
\<close>

definition ADeriv_adjoint :: "('a, 'h) env \<Rightarrow> vec option \<Rightarrow> vec \<Rightarrow> nat \<Rightarrow> nat \<Rightarrow> bool" where
  "ADeriv_adjoint env mo u n nC \<longleftrightarrow>
     (\<forall>v y. length v = nC \<longrightarrow> length y = n \<longrightarrow>
        is_Delayed (getADeriv env mo u v False) \<and>
        is_Delayed (getADeriv env mo u y True) \<and>
        length (computed (getADeriv env mo u v False)) = n \<and>
        length (computed (getADeriv env mo u y True)) = nC \<and>
        dot y (computed (getADeriv env mo u v False))
          = dot v (computed (getADeriv env mo u y True)))"

definition RHSDeriv_adjoint :: "('a, 'h) env \<Rightarrow> vec option \<Rightarrow> nat \<Rightarrow> nat \<Rightarrow> nat \<Rightarrow> bool" where
  "RHSDeriv_adjoint env mo isrc n nC \<longleftrightarrow>
     (\<forall>v y. length v = nC \<longrightarrow> length y = n \<longrightarrow>
        is_Delayed (getRHSDeriv env mo isrc v False) \<and>
        is_Delayed (getRHSDeriv env mo isrc y True) \<and>
        length (computed (getRHSDeriv env mo isrc v False)) = n \<and>
        length (computed (getRHSDeriv env mo isrc y True)) = nC \<and>
        dot y (computed (getRHSDeriv env mo isrc v False))
          = dot v (computed (getRHSDeriv env mo isrc y True)))"

text \<open>
  For a receiver: the field object has the derivative the receiver names, its adjoint
  form is the adjoint of its direct form (in the field and in the model argument), and
  \<^verbatim>\<open>rx.evalDeriv(..., adjoint=True)\<close> is the adjoint of \<^verbatim>\<open>rx.evalDeriv\<close>. \<open>k\<close> is the
  size of the projected field.
\<close>

definition rx_adjoint :: "('a, 'h) env \<Rightarrow> vec list \<Rightarrow> nat \<Rightarrow> nat \<Rightarrow> nat \<Rightarrow> rx \<Rightarrow> bool" where
  "rx_adjoint env us n nC isrc r \<longleftrightarrow>
     (\<exists>fwd adj k.
        fieldDeriv env us (projField r) = Some (fwd, adj) \<and>
        (\<forall>du v y. length du = n \<longrightarrow> length v = nC \<longrightarrow> length y = k \<longrightarrow>
           length (fwd isrc du v) = k \<and>
           length (fst (adj isrc y)) = n \<and> length (snd (adj isrc y)) = nC \<and>
           dot y (fwd isrc du v) = dot du (fst (adj isrc y)) + dot v (snd (adj isrc y))) \<and>
        (\<forall>x w. length x = k \<longrightarrow> length w = rx_nD r \<longrightarrow>
           length (evalDeriv env r isrc us x False) = rx_nD r \<and>
           length (evalDeriv env r isrc us w True) = k \<and>
           dot w (evalDeriv env r isrc us x False) = dot x (evalDeriv env r isrc us w True)))"

fun adjoint_survey ::
  "('a, 'h) env \<Rightarrow> vec option \<Rightarrow> vec list \<Rightarrow> nat \<Rightarrow> nat \<Rightarrow> nat \<Rightarrow> src list \<Rightarrow> bool" where
  "adjoint_survey env mo us n nC isrc [] \<longleftrightarrow> True"
| "adjoint_survey env mo us n nC isrc (src # srcs) \<longleftrightarrow>
     isrc < length us \<and> ADeriv_adjoint env mo (us ! isrc) n nC \<and>
     RHSDeriv_adjoint env mo isrc n nC \<and>
     list_all (rx_adjoint env us n nC isrc) (rxList src) \<and>
     adjoint_survey env mo us n nC (Suc isrc) srcs"

text \<open>
  Modelled from the spec: the data object is not in this file; indexing it by source
  and receiver gives the slice of the vector that belongs to that receiver, the
  receivers taken in source-then-receiver order with \<^verbatim>\<open>rx.nD\<close> entries each.
\<close>

fun sliced_rx :: "(nat \<Rightarrow> nat \<Rightarrow> error + vec) \<Rightarrow> nat \<Rightarrow> nat \<Rightarrow> rx list \<Rightarrow> vec \<Rightarrow> bool" where
  "sliced_rx d isrc irx [] w \<longleftrightarrow> True"
| "sliced_rx d isrc irx (r # rs) w \<longleftrightarrow>
     d isrc irx = Inr (take (rx_nD r) w) \<and> sliced_rx d isrc (Suc irx) rs (drop (rx_nD r) w)"

fun sliced :: "(nat \<Rightarrow> nat \<Rightarrow> error + vec) \<Rightarrow> nat \<Rightarrow> src list \<Rightarrow> vec \<Rightarrow> bool" where
  "sliced d isrc [] w \<longleftrightarrow> True"
| "sliced d isrc (src # srcs) w \<longleftrightarrow>
     sliced_rx d isrc 0 (rxList src) (take (sum_list (map rx_nD (rxList src))) w) \<and>
     sliced d (Suc isrc) srcs (drop (sum_list (map rx_nD (rxList src))) w)"

subsection \<open>A small instance\<close>

text \<open>
  One source with two receivers (one observation, then two), two cells and two mesh
  unknowns. The system operator is the identity, the derivative of the operator is
  diagonal and scaled by the model, the receivers project on the leading unknowns.
  \<open>ex_env sg st rhs\<close> has the sign \<open>sg\<close>, stores the Jacobian when \<open>st\<close> holds, and
  has a right-hand side that depends on the model when \<open>rhs\<close> holds. Its derivative
  methods return a \<^verbatim>\<open>Delayed\<close> on a vector and an array on a matrix (one-dimensional
  for a single column), so that each branch of the code is handed what it can use.
  \<open>ex_env_delayed sg st rhs\<close> is the same instance with \<^verbatim>\<open>getADeriv\<close> wrapped in
  \<^verbatim>\<open>dask.delayed\<close>: it returns a \<^verbatim>\<open>Delayed\<close> on every argument.
\<close>

definition ex_rx :: "nat \<Rightarrow> rx" where
  "ex_rx k = \<lparr>rx_nD = k, projField = ''phi'', priv_dc_voltage = None,
              rx_data_type = ''volt'', priv_Ps = None\<rparr>"

definition ex_P :: "rx \<Rightarrow> vec list" where
  "ex_P r = take (rx_nD r) [[1, 0], [0, 1]]"

definition ex_scale :: "vec option \<Rightarrow> vec" where
  "ex_scale mo = (case mo of None \<Rightarrow> [1, 1] | Some m \<Rightarrow> m)"

definition ex_dA :: "vec option \<Rightarrow> vec \<Rightarrow> vec \<Rightarrow> vec" where
  "ex_dA mo u v = map2 (*) (ex_scale mo) (map2 (*) u v)"

definition ex_dA_mat :: "vec option \<Rightarrow> vec \<Rightarrow> vec list \<Rightarrow> array" where
  "ex_dA_mat mo u X =
     (case X of
        [x] \<Rightarrow> Vec (ex_dA mo u x)
      | _ \<Rightarrow> Mat \<lparr>nrow = 2, ncol = length X, ord = F, lines = map (ex_dA mo u) X\<rparr>)"

fun data_offset :: "src list \<Rightarrow> nat \<Rightarrow> nat \<Rightarrow> nat" where
  "data_offset [] isrc irx = 0"
| "data_offset (s # ss) 0 irx = sum_list (map rx_nD (take irx (rxList s)))"
| "data_offset (s # ss) (Suc isrc) irx = sum_list (map rx_nD (rxList s)) + data_offset ss isrc irx"

definition ex_Data :: "src list \<Rightarrow> vec \<Rightarrow> error + (nat \<Rightarrow> nat \<Rightarrow> error + vec)" where
  "ex_Data srcs v =
     (if length v = survey_nD srcs
      then Inr (\<lambda>isrc irx. Inr (take (rx_nD (rxList (srcs ! isrc) ! irx)) (drop (data_offset srcs isrc irx) v)))
      else Inl ValueError)"

definition ex_env :: "real \<Rightarrow> bool \<Rightarrow> bool \<Rightarrow> (unit, bool) env" where
  "ex_env sg st rhs =
     \<lparr>sign = sg, storeJ = st, data_type = ''volt'',
      getA = (\<lambda>mo. ()), Solver = (\<lambda>A. False), solve = (\<lambda>h x. x), clean = (\<lambda>h. True),
      getRHS = (\<lambda>mo. [[1, 2]]),
      getADeriv = (\<lambda>mo u v adj. Delayed (ex_dA mo u v)),
      getADeriv_mat = (\<lambda>mo u X adj. Plain (ex_dA_mat mo u X)),
      getRHSDeriv = (\<lambda>mo isrc v adj. Delayed (if rhs then v else map (\<lambda>x. 0) v)),
      fieldDeriv = (\<lambda>us name. if name = ''phi''
                      then Some ((\<lambda>isrc du v. du), (\<lambda>isrc y. (y, map (\<lambda>x. 0) y))) else None),
      evalDeriv = (\<lambda>r isrc us x adj. if adj then x @ replicate (2 - length x) 0 else take (rx_nD r) x),
      getP = (\<lambda>r us. ex_P r),
      rx_eval = (\<lambda>r isrc us. take (rx_nD r) (us ! isrc)),
      Data = ex_Data\<rparr>"

definition ex_env_delayed :: "real \<Rightarrow> bool \<Rightarrow> bool \<Rightarrow> (unit, bool) env" where
  "ex_env_delayed sg st rhs =
     (ex_env sg st rhs)\<lparr>getADeriv_mat := (\<lambda>mo u X adj. Delayed (ex_dA_mat mo u X))\<rparr>"

definition ex_sim :: "bool sim" where
  "ex_sim = \<lparr>model = None, priv_f = None, Ainv = None, priv_Jmatrix = None, priv_pred = None,
             srcList = [\<lparr>rxList = [ex_rx 1, ex_rx 2]\<rparr>], n_factor = 0, n_forward = 0\<rparr>"

text \<open>
  \<open>ex_ready\<close> is the instance after \<^verbatim>\<open>fields([3, 5])\<close> without Jacobian storage,
  \<open>ex_stored\<close> the instance after a following \<^verbatim>\<open>getJ([3, 5], f)\<close>.
\<close>

definition ex_ready :: "bool sim" where
  "ex_ready = snd (fields (ex_env 1 False False) [3, 5] ex_sim)"

definition ex_stored :: "bool sim" where
  "ex_stored = snd (getJ (ex_env 1 False False) [3, 5] (priv_f ex_ready) ex_ready)"

section \<open>Properties\<close>

subsection \<open>What the loops read, and what the methods leave unchanged\<close>

lemma set_model_eq: "set_model m s = s\<lparr>model := Some m\<rparr>"
  by (simp add: set_model_def deleteTheseOnModelUpdate_def)

lemma compute_fields_priv_f: "\<exists>us. priv_f (compute_fields env s) = Some (Computed us)"
  by (simp add: compute_fields_def Let_def split: option.splits)

lemma compute_fields_frame:
  "model (compute_fields env s) = model s"
  "priv_Jmatrix (compute_fields env s) = priv_Jmatrix s"
  "priv_pred (compute_fields env s) = priv_pred s"
  "n_forward (compute_fields env s) = n_forward s"
  by (simp_all add: compute_fields_def Let_def split: option.splits)

lemma compute_fields_n_factor:
  "n_factor (compute_fields env s) = (if Ainv s = None then Suc (n_factor s) else n_factor s)"
  by (simp add: compute_fields_def Let_def split: option.splits)

lemma Jvec_srcs_state:
  "model s' = model s \<Longrightarrow> Ainv s' = Ainv s \<Longrightarrow>
   Jvec_srcs env s' f v i srcs = Jvec_srcs env s f v i srcs"
  by (induction srcs arbitrary: i)
    (simp_all add: Let_def cong: sum.case_cong option.case_cong)

lemma Jtvec_rx_state:
  "model s' = model s \<Longrightarrow> Ainv s' = Ainv s \<Longrightarrow>
   Jtvec_rx env s' us d i u irx r acc = Jtvec_rx env s us d i u irx r acc"
  by (cases "(env, s, us, d, i, u, irx, r, acc)" rule: Jtvec_rx.cases)
    (simp_all add: Let_def cong: sum.case_cong option.case_cong)

lemma Jtvec_rxs_state:
  "model s' = model s \<Longrightarrow> Ainv s' = Ainv s \<Longrightarrow>
   Jtvec_rxs env s' us d i u irx acc rxs = Jtvec_rxs env s us d i u irx acc rxs"
  by (induction rxs arbitrary: irx acc)
    (simp_all add: Jtvec_rx_state [of s' s] cong: sum.case_cong)

lemma Jtvec_srcs_state:
  "model s' = model s \<Longrightarrow> Ainv s' = Ainv s \<Longrightarrow>
   Jtvec_srcs env s' f d i acc srcs = Jtvec_srcs env s f d i acc srcs"
  by (induction srcs arbitrary: i acc)
    (simp_all add: Jtvec_rxs_state [of s' s] cong: sum.case_cong)

lemma priv_Jtvec_state:
  "model s' = model s \<Longrightarrow> Ainv s' = Ainv s \<Longrightarrow> srcList s' = srcList s \<Longrightarrow>
   priv_Jtvec env m v f s' = priv_Jtvec env m v f s"
  by (simp add: priv_Jtvec_def Jtvec_srcs_state [of s' s] cong: sum.case_cong option.case_cong)

lemma getJ_Some:
  "getJ env m (Some fo) s =
     (case priv_Jmatrix s of
        Some J \<Rightarrow> (Inr J, s\<lparr>model := Some m\<rparr>)
      | None \<Rightarrow>
          (case priv_Jtvec env m None (Some fo) (s\<lparr>model := Some m\<rparr>) of
             Inl e \<Rightarrow> (Inl e, s\<lparr>model := Some m\<rparr>)
           | Inr Jt \<Rightarrow>
               (Inr (T Jt),
                s\<lparr>model := Some m, priv_Jmatrix := Some (T Jt), priv_f := Some Cleared,
                  Ainv := map_option (clean env) (Ainv s)\<rparr>)))"
  by (simp add: getJ.simps set_model_eq Let_def split: option.splits sum.splits)

lemma Jvec_Some:
  "Jvec env m v (Some fo) s =
     (if storeJ env then
        (case getJ env m (Some fo) (s\<lparr>model := Some m\<rparr>) of
           (Inl e, s1) \<Rightarrow> (Inl e, s1)
         | (Inr J, s1) \<Rightarrow>
             (case np_dot J v of
                Inl e \<Rightarrow> (Inl e, s1)
              | Inr Jv \<Rightarrow> (Inr (vscale (sign env) Jv), s1)))
      else
        (case Jvec_srcs env (s\<lparr>model := Some m\<rparr>) (Some fo) v 0 (srcList s) of
           Inl e \<Rightarrow> (Inl e, s\<lparr>model := Some m\<rparr>)
         | Inr Jv \<Rightarrow>
             (case hstack Jv of
                Inl e \<Rightarrow> (Inl e, s\<lparr>model := Some m\<rparr>)
              | Inr x \<Rightarrow> (Inr (vscale (sign env) x), s\<lparr>model := Some m\<rparr>))))"
  by (simp add: Jvec.simps set_model_eq Let_def)

lemma getJ_Some_frame:
  assumes "getJ env m (Some fo) s = (r, s')"
  shows "n_factor s' = n_factor s \<and> n_forward s' = n_forward s \<and>
    srcList s' = srcList s \<and> model s' = Some m \<and> priv_pred s' = priv_pred s"
  using assms unfolding getJ_Some
  by (auto split: option.splits sum.splits)

lemma Jvec_Some_frame:
  assumes "Jvec env m v (Some fo) s = (r, s')"
  shows "n_factor s' = n_factor s \<and> n_forward s' = n_forward s \<and>
    srcList s' = srcList s \<and> model s' = Some m \<and> priv_pred s' = priv_pred s"
proof (cases "storeJ env")
  case True
  obtain r1 s1 where g: "getJ env m (Some fo) (s\<lparr>model := Some m\<rparr>) = (r1, s1)"
    by (cases "getJ env m (Some fo) (s\<lparr>model := Some m\<rparr>)") auto
  from assms True g have "s' = s1"
    by (auto simp: Jvec_Some split: sum.splits)
  with getJ_Some_frame [OF g] show ?thesis by simp
next
  case False
  with assms have "s' = s\<lparr>model := Some m\<rparr>"
    by (auto simp: Jvec_Some split: sum.splits)
  then show ?thesis by simp
qed

lemma upd_same:
  "priv_pred s = p \<Longrightarrow> s\<lparr>priv_pred := p\<rparr> = s"
  "model s = mo \<Longrightarrow> s\<lparr>model := mo\<rparr> = s"
  by auto

lemma getJ_Some_upd_pred:
  "getJ env m (Some fo) (s\<lparr>priv_pred := p\<rparr>) =
     (fst (getJ env m (Some fo) s), (snd (getJ env m (Some fo) s))\<lparr>priv_pred := p\<rparr>)"
  by (simp add: getJ_Some
      priv_Jtvec_state [of "s\<lparr>priv_pred := p, model := Some m\<rparr>" "s\<lparr>model := Some m\<rparr>"]
      split: option.splits sum.splits)

lemma getJ_Some_upd_n_forward:
  "getJ env m (Some fo) (s\<lparr>n_forward := k\<rparr>) =
     (fst (getJ env m (Some fo) s), (snd (getJ env m (Some fo) s))\<lparr>n_forward := k\<rparr>)"
  by (simp add: getJ_Some
      priv_Jtvec_state [of "s\<lparr>n_forward := k, model := Some m\<rparr>" "s\<lparr>model := Some m\<rparr>"]
      split: option.splits sum.splits)

lemma Jvec_Some_upd_pred:
  "Jvec env m v (Some fo) (s\<lparr>priv_pred := p\<rparr>) =
     (fst (Jvec env m v (Some fo) s), (snd (Jvec env m v (Some fo) s))\<lparr>priv_pred := p\<rparr>)"
proof -
  have a: "s\<lparr>priv_pred := p, model := Some m\<rparr> = s\<lparr>model := Some m\<rparr>\<lparr>priv_pred := p\<rparr>"
    by simp
  show ?thesis
    by (simp only: Jvec_Some [of env m v fo "s\<lparr>priv_pred := p\<rparr>"] Jvec_Some [of env m v fo s]
          a getJ_Some_upd_pred
          Jvec_srcs_state [of "s\<lparr>model := Some m\<rparr>\<lparr>priv_pred := p\<rparr>" "s\<lparr>model := Some m\<rparr>"])
       (simp add: Jvec_srcs_state [of "s\<lparr>model := Some m, priv_pred := p\<rparr>" "s\<lparr>model := Some m\<rparr>"]
          split: sum.splits prod.splits)
qed

lemma Jvec_Some_upd_n_forward:
  "Jvec env m v (Some fo) (s\<lparr>n_forward := k\<rparr>) =
     (fst (Jvec env m v (Some fo) s), (snd (Jvec env m v (Some fo) s))\<lparr>n_forward := k\<rparr>)"
proof -
  have a: "s\<lparr>n_forward := k, model := Some m\<rparr> = s\<lparr>model := Some m\<rparr>\<lparr>n_forward := k\<rparr>"
    by simp
  show ?thesis
    by (simp only: Jvec_Some [of env m v fo "s\<lparr>n_forward := k\<rparr>"] Jvec_Some [of env m v fo s]
          a getJ_Some_upd_n_forward)
       (simp add: Jvec_srcs_state [of "s\<lparr>model := Some m, n_forward := k\<rparr>" "s\<lparr>model := Some m\<rparr>"]
          split: sum.splits prod.splits)
qed

lemma getJ_Some_idem:
  assumes "getJ env m (Some fo) s = (Inr J, s')"
  shows "getJ env m (Some fo') s' = (Inr J, s')"
  using assms unfolding getJ_Some
  by (auto split: option.splits sum.splits)

lemma getJ_Some_priv_f:
  assumes "getJ env m (Some fo) s = (r, s')"
  shows "priv_f s' = priv_f s \<or> priv_f s' = Some Cleared"
  using assms unfolding getJ_Some
  by (auto split: option.splits sum.splits)

lemma Jvec_Some_idem:
  assumes j: "Jvec env m v (Some fo) s = (Inr d, s')" and f: "priv_f s = Some fo"
  shows "\<exists>fo'. priv_f s' = Some fo' \<and> Jvec env m v (Some fo') s' = (Inr d, s')"
proof (cases "storeJ env")
  case True
  obtain r1 s1 where g: "getJ env m (Some fo) (s\<lparr>model := Some m\<rparr>) = (r1, s1)"
    by (cases "getJ env m (Some fo) (s\<lparr>model := Some m\<rparr>)") auto
  from j True g obtain J x where r1: "r1 = Inr J" and s1: "s' = s1"
    and x: "np_dot J v = Inr x" and d: "d = vscale (sign env) x"
    by (auto simp: Jvec_Some split: sum.splits)
  from getJ_Some_priv_f [OF g] f s1 obtain fo' where fo': "priv_f s' = Some fo'"
    by auto
  from getJ_Some_frame [OF g] s1 have ms: "s'\<lparr>model := Some m\<rparr> = s'"
    by (simp add: upd_same)
  from g r1 s1 have "getJ env m (Some fo') s' = (Inr J, s')"
    by (simp add: getJ_Some_idem)
  with True x d ms have "Jvec env m v (Some fo') s' = (Inr d, s')"
    by (simp add: Jvec_Some)
  with fo' show ?thesis by blast
next
  case False
  with j have s': "s' = s\<lparr>model := Some m\<rparr>"
    by (auto simp: Jvec_Some split: sum.splits)
  with f have fo': "priv_f s' = Some fo" by simp
  from s' have "s'\<lparr>model := Some m\<rparr> = s'" by simp
  with j False s' have "Jvec env m v (Some fo) s' = (Inr d, s')"
    by (simp add: Jvec_Some cong: sum.case_cong)
  with fo' show ?thesis by blast
qed

lemma fields_eq:
  "fields env m s =
     (let s0 = (case priv_f s of Some _ \<Rightarrow> s | None \<Rightarrow> compute_fields env s)
      in case Jvec env m m (priv_f s0) (s0\<lparr>n_forward := Suc (n_forward s0)\<rparr>) of
           (Inl e, s2) \<Rightarrow> (Inl e, s2)
         | (Inr d, s2) \<Rightarrow> (Inr (priv_f s2), s2\<lparr>priv_pred := Some d\<rparr>))"
  by (simp add: fields.simps forward.simps Let_def)

lemma field_state_priv_f:
  "\<exists>fo. priv_f (case priv_f s of Some _ \<Rightarrow> s | None \<Rightarrow> compute_fields env s) = Some fo"
  using compute_fields_priv_f [of env s] by (auto split: option.splits)

lemma fields_post:
  assumes "fields env m s = (Inr f1, s1)"
  shows "\<exists>fo d. f1 = Some fo \<and> priv_f s1 = Some fo \<and> priv_pred s1 = Some d \<and>
           model s1 = Some m \<and> Jvec env m m (Some fo) s1 = (Inr d, s1)"
proof -
  define s0 where "s0 = (case priv_f s of Some _ \<Rightarrow> s | None \<Rightarrow> compute_fields env s)"
  obtain fo where fo: "priv_f s0 = Some fo"
    using field_state_priv_f [where s = s and env = env] by (auto simp: s0_def)
  define t where "t = s0\<lparr>n_forward := Suc (n_forward s0)\<rparr>"
  obtain r2 s2 where j: "Jvec env m m (Some fo) t = (r2, s2)"
    by (cases "Jvec env m m (Some fo) t") auto
  from assms fo j obtain d where r2: "r2 = Inr d" and f1: "f1 = priv_f s2"
    and s1: "s1 = s2\<lparr>priv_pred := Some d\<rparr>"
    by (auto simp: fields_eq s0_def [symmetric] t_def [symmetric] split: sum.splits)
  from fo have "priv_f t = Some fo" by (simp add: t_def)
  with Jvec_Some_idem [of env m m fo t d s2] j r2
  obtain fo' where fo': "priv_f s2 = Some fo'" and i: "Jvec env m m (Some fo') s2 = (Inr d, s2)"
    by auto
  from Jvec_Some_frame [OF j] have "model s2 = Some m" by simp
  with fo' i f1 s1 show ?thesis
    by (simp add: Jvec_Some_upd_pred)
qed

lemma getJ_Some_result:
  assumes "getJ env m (Some fo) s = (Inr J, s')"
  shows "priv_Jmatrix s' = Some J"
  using assms unfolding getJ_Some
  by (auto split: option.splits sum.splits)

lemma compute_fields_upd_pred:
  "compute_fields env (s\<lparr>priv_pred := p\<rparr>) = (compute_fields env s)\<lparr>priv_pred := p\<rparr>"
  by (simp add: compute_fields_def Let_def split: option.splits)

lemma fields_frame:
  assumes "fields env m s = (r, s')"
  shows "n_forward s' = Suc (n_forward s) \<and>
         n_factor s' = (if priv_f s = None \<and> Ainv s = None then Suc (n_factor s) else n_factor s)"
proof -
  define s0 where "s0 = (case priv_f s of Some _ \<Rightarrow> s | None \<Rightarrow> compute_fields env s)"
  obtain fo where fo: "priv_f s0 = Some fo"
    using field_state_priv_f [where s = s and env = env] by (auto simp: s0_def)
  define t where "t = s0\<lparr>n_forward := Suc (n_forward s0)\<rparr>"
  obtain r2 s2 where j: "Jvec env m m (Some fo) t = (r2, s2)"
    by (cases "Jvec env m m (Some fo) t") auto
  have s0: "n_forward s0 = n_forward s \<and>
      n_factor s0 = (if priv_f s = None \<and> Ainv s = None then Suc (n_factor s) else n_factor s)"
    by (simp add: s0_def compute_fields_frame compute_fields_n_factor split: option.splits)
  from assms fo j have "s' = s2 \<or> (\<exists>d. s' = s2\<lparr>priv_pred := Some d\<rparr>)"
    by (auto simp: fields_eq s0_def [symmetric] t_def [symmetric] split: sum.splits)
  with Jvec_Some_frame [OF j] s0 show ?thesis
    by (auto simp: t_def)
qed

lemma fields_upd_pred:
  "fields env m (s\<lparr>priv_pred := p\<rparr>) =
     (case fields env m s of
        (Inl e, s1) \<Rightarrow> (Inl e, s1\<lparr>priv_pred := p\<rparr>)
      | (Inr f1, s1) \<Rightarrow> (Inr f1, s1))"
proof -
  define s0 where "s0 = (case priv_f s of Some _ \<Rightarrow> s | None \<Rightarrow> compute_fields env s)"
  define t where "t = s0\<lparr>n_forward := Suc (n_forward s0)\<rparr>"
  have a: "(case priv_f s of None \<Rightarrow> compute_fields env (s\<lparr>priv_pred := p\<rparr>)
            | Some x \<Rightarrow> s\<lparr>priv_pred := p\<rparr>) = s0\<lparr>priv_pred := p\<rparr>"
    by (simp add: s0_def compute_fields_upd_pred split: option.splits)
  obtain fo where fo: "priv_f s0 = Some fo"
    using field_state_priv_f [where s = s and env = env] by (auto simp: s0_def)
  have b: "s0\<lparr>priv_pred := p, n_forward := Suc (n_forward s0)\<rparr> = t\<lparr>priv_pred := p\<rparr>"
    by (simp add: t_def)
  obtain r2 s2 where j: "Jvec env m m (Some fo) t = (r2, s2)"
    by (cases "Jvec env m m (Some fo) t") auto
  have L: "fields env m (s\<lparr>priv_pred := p\<rparr>) =
      (case r2 of Inl e \<Rightarrow> (Inl e, s2\<lparr>priv_pred := p\<rparr>)
       | Inr d \<Rightarrow> (Inr (priv_f s2), s2\<lparr>priv_pred := Some d\<rparr>))"
    by (simp add: fields_eq [of env m "s\<lparr>priv_pred := p\<rparr>"] a b fo Jvec_Some_upd_pred j
        split: sum.splits)
  have R: "fields env m s =
      (case r2 of Inl e \<Rightarrow> (Inl e, s2) | Inr d \<Rightarrow> (Inr (priv_f s2), s2\<lparr>priv_pred := Some d\<rparr>))"
    by (simp add: fields_eq [of env m s] s0_def [symmetric] t_def [symmetric] fo j
        split: sum.splits)
  show ?thesis
    by (simp add: L R split: sum.splits)
qed

lemma Jtvec_rx_sign:
  "Jtvec_rx (env\<lparr>sign := c\<rparr>) s us d i u irx r acc = Jtvec_rx env s us d i u irx r acc"
  by (cases "(env, s, us, d, i, u, irx, r, acc)" rule: Jtvec_rx.cases)
    (simp_all add: Let_def cong: sum.case_cong option.case_cong)

lemma Jtvec_rxs_sign:
  "Jtvec_rxs (env\<lparr>sign := c\<rparr>) s us d i u irx acc rxs = Jtvec_rxs env s us d i u irx acc rxs"
  by (induction rxs arbitrary: irx acc) (simp_all add: Jtvec_rx_sign cong: sum.case_cong)

lemma Jtvec_srcs_sign:
  "Jtvec_srcs (env\<lparr>sign := c\<rparr>) s f d i acc srcs = Jtvec_srcs env s f d i acc srcs"
  by (induction srcs arbitrary: i acc) (simp_all add: Jtvec_rxs_sign cong: sum.case_cong)

subsection \<open>Assignments into the buffer of the full matrix\<close>

text \<open>
  A one-dimensional value is broadcast over the rows of a block, a matrix of one
  column over its columns; a matrix of one column does not fit a single column of the
  buffer, which is one-dimensional; an index out of range is reported before the value
  is looked at; a \<^verbatim>\<open>Delayed\<close> is not stored.
\<close>

lemma buffer_assignments:
  "set_block (zeros2 2 3) 1 3 (Plain (Vec [7, 8])) =
     Inr \<lparr>nrow = 2, ncol = 3, ord = F, lines = [[0, 0], [7, 7], [8, 8]]\<rparr>"
  "set_block (zeros2 2 3) 1 3 (Plain (Mat \<lparr>nrow = 2, ncol = 1, ord = F, lines = [[7, 8]]\<rparr>)) =
     Inr \<lparr>nrow = 2, ncol = 3, ord = F, lines = [[0, 0], [7, 8], [7, 8]]\<rparr>"
  "set_block (zeros2 2 3) 1 3 (Plain (Vec [7, 8, 9])) = Inl ValueError"
  "set_block (zeros2 2 3) 1 3 (Delayed (Vec [7, 8])) = Inl ValueError"
  "set_col (zeros2 2 3) 1 (Plain (Vec [7, 8])) =
     Inr \<lparr>nrow = 2, ncol = 3, ord = F, lines = [[0, 0], [7, 8], [0, 0]]\<rparr>"
  "set_col (zeros2 2 3) 1 (Plain (Mat \<lparr>nrow = 2, ncol = 1, ord = F, lines = [[7, 8]]\<rparr>)) =
     Inl ValueError"
  "set_col (zeros2 2 3) 1 (Delayed (Vec [7, 8])) = Inl ValueError"
  "set_col (zeros2 2 3) 3 (Delayed (Vec [7, 8])) = Inl IndexError"
  by code_simp+

subsection \<open>The full-matrix branch does not read the derivative of the right-hand side\<close>

lemma Jtvec_rx_None_getRHSDeriv:
  "Jtvec_rx (env\<lparr>getRHSDeriv := g\<rparr>) s us None i u irx r acc = Jtvec_rx env s us None i u irx r acc"
  by (cases "(env, s, us, None :: (nat \<Rightarrow> nat \<Rightarrow> error + vec) option, i, u, irx, r, acc)"
        rule: Jtvec_rx.cases)
    (simp_all add: Let_def cong: sum.case_cong option.case_cong)

lemma Jtvec_rxs_None_getRHSDeriv:
  "Jtvec_rxs (env\<lparr>getRHSDeriv := g\<rparr>) s us None i u irx acc rxs
   = Jtvec_rxs env s us None i u irx acc rxs"
  by (induction rxs arbitrary: irx acc)
    (simp_all add: Jtvec_rx_None_getRHSDeriv cong: sum.case_cong)

lemma Jtvec_srcs_None_getRHSDeriv:
  "Jtvec_srcs (env\<lparr>getRHSDeriv := g\<rparr>) s f None i acc srcs = Jtvec_srcs env s f None i acc srcs"
  by (induction srcs arbitrary: i acc)
    (simp_all add: Jtvec_rxs_None_getRHSDeriv cong: sum.case_cong)

subsection \<open>Dot products, and the two loops against each other\<close>

lemma dot_Nil [simp]: "dot [] y = 0" "dot x [] = 0"
  by (simp_all add: dot_def)

lemma dot_Cons [simp]: "dot (a # x) (b # y) = a * b + dot x y"
  by (simp add: dot_def)

lemma dot_commute: "dot x y = dot y x"
  by (induction x y rule: list_induct2') (simp_all)

lemma dot_vneg: "dot (vneg x) y = - dot x y"
  by (induction x y rule: list_induct2') (simp_all add: vneg_def)

lemma dot_vscale: "dot (vscale c x) y = c * dot x y"
  by (induction x y rule: list_induct2') (simp_all add: vscale_def algebra_simps)

lemma dot_add:
  "length a = length b \<Longrightarrow> dot (map2 (+) a b) y = dot a y + dot b y"
proof (induction a b arbitrary: y rule: list_induct2')
  case (4 x xs z zs)
  then show ?case by (cases y) (simp_all add: algebra_simps)
qed simp_all

lemma dot_append:
  "length a = length c \<Longrightarrow> dot (a @ b) (c @ d) = dot a c + dot b d"
  by (induction a c rule: list_induct2') simp_all

lemma dot_take_drop:
  "dot w (a @ b) = dot (take (length a) w) a + dot (drop (length a) w) b"
proof (induction a arbitrary: w)
  case Nil
  then show ?case by simp
next
  case (Cons x a)
  then show ?case by (cases w) simp_all
qed

lemma dot_replicate0: "dot (replicate n 0) y = 0"
  by (induction n arbitrary: y) (simp, case_tac y, simp_all)

lemma vadd_same: "length x = length y \<Longrightarrow> vadd x y = Inr (map2 (+) x y)"
  by (simp add: vadd_def)

lemma viadd_same: "length y = length acc \<Longrightarrow> viadd acc y = Inr (map2 (+) acc y)"
  by (simp add: viadd_def)

lemma length_vneg [simp]: "length (vneg x) = length x"
  by (simp add: vneg_def)

lemma length_vscale [simp]: "length (vscale c x) = length x"
  by (simp add: vscale_def)

lemma from_delayed_Delayed: "is_Delayed x \<Longrightarrow> from_delayed x = Inr (computed x)"
  by (cases x) (simp_all add: from_delayed_def)

lemma adjoint_rx_step:
  assumes rx: "rx_adjoint env us n nC isrc r"
    and h: "Ainv s = Some h" and mo: "model s = Some mo"
    and S: "solve_symmetric env h n"
    and A: "ADeriv_adjoint env (Some mo) u n nC"
    and R: "RHSDeriv_adjoint env (Some mo) isrc n nC"
    and du: "du = solve env h rhs" and rhs: "length rhs = n"
    and rhs_eq: "\<And>y. length y = n \<Longrightarrow>
        dot rhs y = dot v (map2 (+) (vneg (computed (getADeriv env (Some mo) u y True)))
                            (computed (getRHSDeriv env (Some mo) isrc y True)))"
    and v: "length v = nC" and acc: "length acc = nC"
    and dv: "d isrc irx = Inr wr" and wr: "length wr = rx_nD r"
  shows "\<exists>blk acc'.
      Jvec_rxs env us isrc du v [r] = Inr [blk] \<and>
      Jtvec_rx env s us (Some d) isrc u irx r (Vec acc, i0) = Inr (Vec acc', i0) \<and>
      length blk = rx_nD r \<and> length acc' = nC \<and>
      dot wr blk + dot v acc = dot v acc'"
proof -
  from rx obtain fwd adj k where fd: "fieldDeriv env us (projField r) = Some (fwd, adj)"
    and F: "\<And>du v y. length du = n \<Longrightarrow> length v = nC \<Longrightarrow> length y = k \<Longrightarrow>
           length (fwd isrc du v) = k \<and>
           length (fst (adj isrc y)) = n \<and> length (snd (adj isrc y)) = nC \<and>
           dot y (fwd isrc du v) = dot du (fst (adj isrc y)) + dot v (snd (adj isrc y))"
    and E: "\<And>x w. length x = k \<Longrightarrow> length w = rx_nD r \<Longrightarrow>
           length (evalDeriv env r isrc us x False) = rx_nD r \<and>
           length (evalDeriv env r isrc us w True) = k \<and>
           dot w (evalDeriv env r isrc us x False) = dot x (evalDeriv env r isrc us w True)"
    unfolding rx_adjoint_def by blast
  from S rhs du have ldu: "length du = n"
    by (simp add: solve_symmetric_def)
  define PTv where "PTv = evalDeriv env r isrc us wr True"
  define x where "x = fwd isrc du v"
  define blk where "blk = evalDeriv env r isrc us x False"
  define a where "a = fst (adj isrc PTv)"
  define b where "b = snd (adj isrc PTv)"
  define y where "y = solve env h a"
  define gA where "gA = computed (getADeriv env (Some mo) u y True)"
  define gR where "gR = computed (getRHSDeriv env (Some mo) isrc y True)"
  define t where "t = map2 (+) b (map2 (+) (vneg gA) gR)"
  have lx: "length x = k"
    using F [of du v "replicate k 0"] ldu v by (simp add: x_def)
  have lP: "length PTv = k" and lblk: "length blk = rx_nD r"
    and e: "dot wr blk = dot x PTv"
    using E [OF lx wr] by (simp_all add: PTv_def blk_def)
  have la: "length a = n" and lb: "length b = nC"
    and f: "dot PTv x = dot du a + dot v b"
    using F [OF ldu v lP] by (simp_all add: a_def b_def x_def)
  have ly: "length y = n"
    using S la by (simp add: solve_symmetric_def y_def)
  have lgA: "length gA = nC" and fA: "from_delayed (getADeriv env (Some mo) u y True) = Inr gA"
    using A ly v by (simp_all add: ADeriv_adjoint_def gA_def from_delayed_Delayed)
  have lgR: "length gR = nC"
    and fR: "from_delayed (getRHSDeriv env (Some mo) isrc y True) = Inr gR"
    using R ly v by (simp_all add: RHSDeriv_adjoint_def gR_def from_delayed_Delayed)
  have "dot du a = dot rhs y"
    using S rhs la by (simp add: solve_symmetric_def du y_def)
  also have "\<dots> = dot v (map2 (+) (vneg gA) gR)"
    using rhs_eq [OF ly] by (simp add: gA_def gR_def)
  finally have d1: "dot du a = dot v (map2 (+) (vneg gA) gR)" .
  have lt: "length t = nC"
    using lb lgA lgR by (simp add: t_def)
  have dt: "dot v t = dot v b + dot v (map2 (+) (vneg gA) gR)"
    using lb lgA lgR dot_add [of b "map2 (+) (vneg gA) gR" v]
    by (simp add: t_def dot_commute [of v])
  have "dot wr blk = dot v t"
    using e f d1 dt by (simp add: dot_commute [of x PTv])
  then have key: "dot wr blk + dot v acc = dot v (map2 (+) acc t)"
    using acc lt dot_add [of acc t v] by (simp add: dot_commute [of v])
  have j: "Jvec_rxs env us isrc du v [r] = Inr [blk]"
    by (simp add: fd blk_def x_def)
  have jt: "Jtvec_rx env s us (Some d) isrc u irx r (Vec acc, i0) = Inr (Vec (map2 (+) acc t), i0)"
    using lgA lgR lb lt acc
    by (simp add: dv fd h mo Let_def PTv_def [symmetric] a_def [symmetric] b_def [symmetric]
        y_def [symmetric] fA fR vadd_same viadd_same t_def [symmetric])
  from j jt lblk key acc lt show ?thesis
    by auto
qed

lemma Jvec_rxs_Cons:
  "Jvec_rxs env us isrc du v (r # rxs) =
     (case Jvec_rxs env us isrc du v [r] of
        Inl e \<Rightarrow> Inl e
      | Inr b \<Rightarrow>
          (case Jvec_rxs env us isrc du v rxs of
             Inl e \<Rightarrow> Inl e
           | Inr bs \<Rightarrow> Inr (b @ bs)))"
  by (simp add: Let_def split: option.splits sum.splits)

lemma ADeriv_adjoint_fwd_length:
  assumes "ADeriv_adjoint env mo u n nC" and "length v = nC"
  shows "length (computed (getADeriv env mo u v False)) = n"
    and "from_delayed (getADeriv env mo u v False) = Inr (computed (getADeriv env mo u v False))"
  using assms(1) [unfolded ADeriv_adjoint_def, rule_format, of v "replicate n 0"] assms(2)
  by (simp_all add: from_delayed_Delayed)

lemma RHSDeriv_adjoint_fwd_length:
  assumes "RHSDeriv_adjoint env mo isrc n nC" and "length v = nC"
  shows "length (computed (getRHSDeriv env mo isrc v False)) = n"
    and "from_delayed (getRHSDeriv env mo isrc v False)
      = Inr (computed (getRHSDeriv env mo isrc v False))"
  using assms(1) [unfolded RHSDeriv_adjoint_def, rule_format, of v "replicate n 0"] assms(2)
  by (simp_all add: from_delayed_Delayed)

lemma adjoint_rxs:
  assumes h: "Ainv s = Some h" and mo: "model s = Some mo"
    and S: "solve_symmetric env h n"
    and A: "ADeriv_adjoint env (Some mo) u n nC"
    and R: "RHSDeriv_adjoint env (Some mo) isrc n nC"
    and du: "du = solve env h rhs" and rhs: "length rhs = n"
    and rhs_eq: "\<And>y. length y = n \<Longrightarrow>
        dot rhs y = dot v (map2 (+) (vneg (computed (getADeriv env (Some mo) u y True)))
                            (computed (getRHSDeriv env (Some mo) isrc y True)))"
    and v: "length v = nC"
  shows "list_all (rx_adjoint env us n nC isrc) rxs \<Longrightarrow> sliced_rx d isrc irx rxs w \<Longrightarrow>
     length w = sum_list (map rx_nD rxs) \<Longrightarrow> length acc = nC \<Longrightarrow>
     \<exists>blks acc'.
       Jvec_rxs env us isrc du v rxs = Inr blks \<and>
       Jtvec_rxs env s us (Some d) isrc u irx (Vec acc, i0) rxs = Inr (Vec acc', i0) \<and>
       length blks = length rxs \<and> length (concat blks) = length w \<and> length acc' = nC \<and>
       dot w (concat blks) + dot v acc = dot v acc'"
proof (induction rxs arbitrary: irx w acc)
  case Nil
  then show ?case by simp
next
  case (Cons r rxs)
  define wr where "wr = take (rx_nD r) w"
  define w' where "w' = drop (rx_nD r) w"
  from Cons.prems have rx: "rx_adjoint env us n nC isrc r"
    and rxs: "list_all (rx_adjoint env us n nC isrc) rxs"
    and dv: "d isrc irx = Inr wr" and sl: "sliced_rx d isrc (Suc irx) rxs w'"
    and lwr: "length wr = rx_nD r" and lw': "length w' = sum_list (map rx_nD rxs)"
    and acc: "length acc = nC"
    by (auto simp: wr_def w'_def)
  from adjoint_rx_step [where d = d and isrc = isrc and irx = irx and ?i0.0 = i0,
      OF rx h mo S A R du rhs rhs_eq v acc dv lwr]
  obtain blk acc1 where j1: "Jvec_rxs env us isrc du v [r] = Inr [blk]"
    and t1: "Jtvec_rx env s us (Some d) isrc u irx r (Vec acc, i0) = Inr (Vec acc1, i0)"
    and lblk: "length blk = rx_nD r" and lacc1: "length acc1 = nC"
    and k1: "dot wr blk + dot v acc = dot v acc1"
    by blast
  from Cons.IH [OF rxs sl lw' lacc1]
  obtain blks acc' where j2: "Jvec_rxs env us isrc du v rxs = Inr blks"
    and t2: "Jtvec_rxs env s us (Some d) isrc u (Suc irx) (Vec acc1, i0) rxs = Inr (Vec acc', i0)"
    and lblks: "length blks = length rxs" and lc: "length (concat blks) = length w'"
    and lacc': "length acc' = nC"
    and k2: "dot w' (concat blks) + dot v acc1 = dot v acc'"
    by blast
  have j: "Jvec_rxs env us isrc du v (r # rxs) = Inr (blk # blks)"
    by (simp only: Jvec_rxs_Cons [of env us isrc du v r rxs] j1 j2) simp
  have t: "Jtvec_rxs env s us (Some d) isrc u irx (Vec acc, i0) (r # rxs) = Inr (Vec acc', i0)"
    unfolding Jtvec_rxs.simps t1 by (simp add: t2)
  have "dot w (concat (blk # blks)) = dot wr blk + dot w' (concat blks)"
    using dot_take_drop [of w blk "concat blks"] lblk by (simp add: wr_def w'_def)
  with k1 k2 have k: "dot w (concat (blk # blks)) + dot v acc = dot v acc'"
    by simp
  have l: "length (concat (blk # blks)) = length w"
    using lblk lc lwr by (simp add: wr_def w'_def)
  from j t lblks l lacc' k show ?case
    by (intro exI [of _ "blk # blks"] exI [of _ acc']) simp
qed

lemma adjoint_srcs:
  assumes h: "Ainv s = Some h" and mo: "model s = Some mo"
    and S: "solve_symmetric env h n" and v: "length v = nC"
  shows "adjoint_survey env (Some mo) us n nC isrc srcs \<Longrightarrow> sliced d isrc srcs w \<Longrightarrow>
     length w = survey_nD srcs \<Longrightarrow> length acc = nC \<Longrightarrow>
     \<exists>Jv acc'.
       Jvec_srcs env s (Some (Computed us)) v isrc srcs = Inr Jv \<and>
       Jtvec_srcs env s (Some (Computed us)) (Some d) isrc (Vec acc, i0) srcs
         = Inr (Vec acc', i0) \<and>
       length Jv = length (concat (map rxList srcs)) \<and>
       length (concat Jv) = length w \<and> length acc' = nC \<and>
       dot w (concat Jv) + dot v acc = dot v acc'"
proof (induction srcs arbitrary: isrc w acc)
  case Nil
  then show ?case by (simp add: survey_nD_def)
next
  case (Cons a srcs)
  define k where "k = sum_list (map rx_nD (rxList a))"
  define wa where "wa = take k w"
  define w' where "w' = drop k w"
  define u where "u = us ! isrc"
  define dA where "dA = computed (getADeriv env (Some mo) u v False)"
  define dR where "dR = computed (getRHSDeriv env (Some mo) isrc v False)"
  define rhs where "rhs = map2 (+) (vneg dA) dR"
  define du where "du = solve env h rhs"
  from Cons.prems have i: "isrc < length us"
    and A: "ADeriv_adjoint env (Some mo) u n nC"
    and R: "RHSDeriv_adjoint env (Some mo) isrc n nC"
    and rxs: "list_all (rx_adjoint env us n nC isrc) (rxList a)"
    and rest: "adjoint_survey env (Some mo) us n nC (Suc isrc) srcs"
    and sl: "sliced_rx d isrc 0 (rxList a) wa" and sls: "sliced d (Suc isrc) srcs w'"
    and lwa: "length wa = k" and lw': "length w' = survey_nD srcs"
    and acc: "length acc = nC"
    by (auto simp: k_def wa_def w'_def u_def survey_nD_def)
  have ldA: "length dA = n" and ldR: "length dR = n"
    and fA: "from_delayed (getADeriv env (Some mo) u v False) = Inr dA"
    and fR: "from_delayed (getRHSDeriv env (Some mo) isrc v False) = Inr dR"
    using ADeriv_adjoint_fwd_length [OF A v] RHSDeriv_adjoint_fwd_length [OF R v]
    by (simp_all add: dA_def dR_def)
  have lrhs: "length rhs = n"
    using ldA ldR by (simp add: rhs_def)
  have rhs_eq: "dot rhs y = dot v (map2 (+) (vneg (computed (getADeriv env (Some mo) u y True)))
                            (computed (getRHSDeriv env (Some mo) isrc y True)))"
    if y: "length y = n" for y
  proof -
    have lT: "length (computed (getADeriv env (Some mo) u y True)) = nC"
      "length (computed (getRHSDeriv env (Some mo) isrc y True)) = nC"
      using A R v y by (simp_all add: ADeriv_adjoint_def RHSDeriv_adjoint_def)
    have "dot rhs y = - dot dA y + dot dR y"
      using ldA ldR by (simp add: rhs_def dot_add dot_vneg)
    also have "\<dots> = - dot v (computed (getADeriv env (Some mo) u y True))
        + dot v (computed (getRHSDeriv env (Some mo) isrc y True))"
      using A R v y
      by (simp add: ADeriv_adjoint_def RHSDeriv_adjoint_def dA_def dR_def dot_commute [of _ y])
    also have "\<dots> = dot v (map2 (+) (vneg (computed (getADeriv env (Some mo) u y True)))
                            (computed (getRHSDeriv env (Some mo) isrc y True)))"
      using lT by (simp add: dot_commute [of v] dot_add dot_vneg)
    finally show ?thesis .
  qed
  from adjoint_rxs [where d = d and isrc = isrc and irx = 0 and ?i0.0 = i0 and w = wa,
      OF h mo S A R du_def lrhs rhs_eq v rxs sl _ acc] lwa
  obtain blks acc1 where j1: "Jvec_rxs env us isrc du v (rxList a) = Inr blks"
    and t1: "Jtvec_rxs env s us (Some d) isrc u 0 (Vec acc, i0) (rxList a) = Inr (Vec acc1, i0)"
    and lblks: "length blks = length (rxList a)" and lc: "length (concat blks) = length wa"
    and lacc1: "length acc1 = nC"
    and k1: "dot wa (concat blks) + dot v acc = dot v acc1"
    by (auto simp: k_def)
  from Cons.IH [OF rest sls lw' lacc1]
  obtain Jv acc' where j2: "Jvec_srcs env s (Some (Computed us)) v (Suc isrc) srcs = Inr Jv"
    and t2: "Jtvec_srcs env s (Some (Computed us)) (Some d) (Suc isrc) (Vec acc1, i0) srcs
         = Inr (Vec acc', i0)"
    and lJv: "length Jv = length (concat (map rxList srcs))"
    and lcJ: "length (concat Jv) = length w'" and lacc': "length acc' = nC"
    and k2: "dot w' (concat Jv) + dot v acc1 = dot v acc'"
    by blast
  have g: "field_get (Some (Computed us)) isrc = Inr u"
    using i by (simp add: field_get_def u_def)
  have va: "vadd (vneg dA) dR = Inr rhs"
    using ldA ldR by (simp add: vadd_same rhs_def)
  have j: "Jvec_srcs env s (Some (Computed us)) v isrc (a # srcs) = Inr (blks @ Jv)"
    using j1 j2
    by (simp add: g mo h Let_def fA fR va du_def [symmetric] solutions_def)
  have t: "Jtvec_srcs env s (Some (Computed us)) (Some d) isrc (Vec acc, i0) (a # srcs)
      = Inr (Vec acc', i0)"
    using t1 t2 by (simp add: g solutions_def)
  have "dot w (concat (blks @ Jv)) = dot wa (concat blks) + dot w' (concat Jv)"
    using dot_take_drop [of w "concat blks" "concat Jv"] lc lwa
    by (simp add: wa_def w'_def)
  with k1 k2 have kk: "dot w (concat (blks @ Jv)) + dot v acc = dot v acc'"
    by simp
  have l: "length (concat (blks @ Jv)) = length w"
    using lc lcJ lwa by (simp add: wa_def w'_def)
  from j t lblks lJv l lacc' kk show ?case
    by (intro exI [of _ "blks @ Jv"] exI [of _ acc']) simp
qed

lemma dot_map_add:
  "dot v (map (\<lambda>j. f j + g j) js) = dot v (map f js) + dot v (map g js)"
proof (induction js arbitrary: v)
  case Nil
  then show ?case by simp
next
  case (Cons j js)
  then show ?case by (cases v) (simp_all add: algebra_simps)
qed

lemma dot_map_scale:
  "dot v (map (\<lambda>j. f j * c) js) = c * dot v (map f js)"
proof (induction js arbitrary: v)
  case Nil
  then show ?case by simp
next
  case (Cons j js)
  then show ?case by (cases v) (simp_all add: algebra_simps)
qed

lemma map_nth_lines: "map (\<lambda>i. f (L ! i)) [0..<length L] = map f L"
proof -
  have "map (\<lambda>i. f (L ! i)) [0..<length L] = map f (map ((!) L) [0..<length L])"
    by (simp add: comp_def)
  then show ?thesis
    by (simp only: map_nth)
qed

lemma rows_times_adjoint:
  "list_all (\<lambda>l. length l = c) L \<Longrightarrow> length v = c \<Longrightarrow> length w = length L \<Longrightarrow>
   dot w (map (\<lambda>l. dot l v) L) = dot v (map (\<lambda>j. dot (map (\<lambda>l. l ! j) L) w) [0..<c])"
proof (induction L arbitrary: w)
  case Nil
  have "dot v (map (\<lambda>j. 0) [0..<c]) = 0"
    using dot_map_scale [of v "\<lambda>j. 0" 0 "[0..<c]"] by simp
  with Nil show ?case by simp
next
  case (Cons x L)
  then obtain w0 ws where w: "w = w0 # ws" and ws: "length ws = length L"
    by (cases w) auto
  from Cons.prems have x: "length x = c" and L: "list_all (\<lambda>l. length l = c) L"
    by auto
  have xs: "map (\<lambda>j. x ! j) [0..<c] = x"
    using map_nth [of x] x by simp
  have "dot v (map (\<lambda>j. dot (map (\<lambda>l. l ! j) (x # L)) w) [0..<c])
      = dot v (map (\<lambda>j. x ! j * w0 + dot (map (\<lambda>l. l ! j) L) ws) [0..<c])"
    by (simp add: w)
  also have "\<dots> = w0 * dot v (map (\<lambda>j. x ! j) [0..<c])
      + dot v (map (\<lambda>j. dot (map (\<lambda>l. l ! j) L) ws) [0..<c])"
    by (simp add: dot_map_add dot_map_scale)
  also have "\<dots> = w0 * dot x v + dot ws (map (\<lambda>l. dot l v) L)"
    using Cons.IH [OF L Cons.prems(2) ws] by (simp add: xs dot_commute [of v x])
  finally show ?case
    by (simp add: w)
qed

lemma np_dot_adjoint:
  assumes ok: "mat_ok a" and v: "length v = ncol a" and w: "length w = nrow a"
  shows "\<exists>x y. np_dot (Mat a) v = Inr x \<and> np_dot (T (Mat a)) w = Inr y \<and>
           length x = length w \<and> length y = length v \<and> dot w x = dot v y"
proof (cases "ord a")
  case C
  with ok have len: "length (lines a) = nrow a"
    and all: "list_all (\<lambda>l. length l = ncol a) (lines a)"
    by (simp_all add: mat_ok_def)
  have x: "np_dot (Mat a) v = Inr (map (\<lambda>l. dot l v) (lines a))"
    using v C len map_nth_lines [of "\<lambda>l. dot l v" "lines a"]
    by (simp add: np_dot_def row_of_def)
  have y: "np_dot (T (Mat a)) w
      = Inr (map (\<lambda>j. dot (map (\<lambda>l. l ! j) (lines a)) w) [0..<ncol a])"
    using w C by (simp add: np_dot_def T_def transpose2_def row_of_def)
  from rows_times_adjoint [OF all v] w len
  have "dot w (map (\<lambda>l. dot l v) (lines a))
      = dot v (map (\<lambda>j. dot (map (\<lambda>l. l ! j) (lines a)) w) [0..<ncol a])"
    by simp
  with x y len v w show ?thesis by simp
next
  case F
  with ok have len: "length (lines a) = ncol a"
    and all: "list_all (\<lambda>l. length l = nrow a) (lines a)"
    by (simp_all add: mat_ok_def)
  have x: "np_dot (Mat a) v
      = Inr (map (\<lambda>i. dot (map (\<lambda>l. l ! i) (lines a)) v) [0..<nrow a])"
    using v F by (simp add: np_dot_def row_of_def)
  have y: "np_dot (T (Mat a)) w = Inr (map (\<lambda>l. dot l w) (lines a))"
    using w F len map_nth_lines [of "\<lambda>l. dot l w" "lines a"]
    by (simp add: np_dot_def T_def transpose2_def row_of_def)
  from rows_times_adjoint [OF all w] v len
  have "dot v (map (\<lambda>l. dot l w) (lines a))
      = dot w (map (\<lambda>i. dot (map (\<lambda>l. l ! i) (lines a)) v) [0..<nrow a])"
    by simp
  with x y len v w show ?thesis by simp
qed

lemma dot_vscale_right: "dot x (vscale c y) = c * dot x y"
  by (simp add: dot_commute [of x] dot_vscale)

lemma adjoint_state_path:
  assumes ns: "\<not> storeJ env" and h: "Ainv s = Some h" and S: "solve_symmetric env h n"
    and C: "adjoint_survey env (Some m) us n (length m) 0 (srcList s)"
    and D: "Data env (srcList s) w = Inr d" and sl: "sliced d 0 (srcList s) w"
    and rx: "concat (map rxList (srcList s)) \<noteq> []"
    and v: "length v = length m" and w: "length w = survey_nD (srcList s)"
  shows "\<exists>Jv Jtv.
      Jvec env m v (Some (Computed us)) s = (Inr Jv, s\<lparr>model := Some m\<rparr>) \<and>
      Jtvec env m w (Some (Computed us)) s = (Inr (Vec Jtv), s\<lparr>model := Some m\<rparr>) \<and>
      length Jv = length w \<and> length Jtv = length v \<and> dot w Jv = dot v Jtv"
proof -
  define s0 where "s0 = s\<lparr>model := Some m\<rparr>"
  have h0: "Ainv s0 = Some h" and m0: "model s0 = Some m" and l0: "srcList s0 = srcList s"
    using h by (simp_all add: s0_def)
  have z: "length (replicate (length m) (0::real)) = length m"
    by simp
  from adjoint_srcs [where d = d and isrc = 0 and ?i0.0 = 0 and w = w and s = s0,
      OF h0 m0 S v C sl w z]
  obtain Jv0 acc' where j: "Jvec_srcs env s0 (Some (Computed us)) v 0 (srcList s) = Inr Jv0"
    and t: "Jtvec_srcs env s0 (Some (Computed us)) (Some d) 0
        (Vec (replicate (length m) 0), 0) (srcList s) = Inr (Vec acc', 0)"
    and lJ: "length Jv0 = length (concat (map rxList (srcList s)))"
    and lc: "length (concat Jv0) = length w" and la: "length acc' = length m"
    and k: "dot w (concat Jv0) + dot v (replicate (length m) 0) = dot v acc'"
    by blast
  from lJ rx have ne: "Jv0 \<noteq> []"
    by auto
  have J: "Jvec env m v (Some (Computed us)) s = (Inr (vscale (sign env) (concat Jv0)), s0)"
    using ns j ne by (simp add: Jvec_Some s0_def [symmetric] hstack_def)
  have Jt: "Jtvec env m w (Some (Computed us)) s = (Inr (Vec (vscale (sign env) acc')), s0)"
    using ns t D
    by (simp add: Jtvec_def set_model_eq s0_def [symmetric] priv_Jtvec_def l0 mkvc_def)
  have "dot v (replicate (length m) 0) = 0"
    by (simp add: dot_commute [of v] dot_replicate0)
  with k have "dot w (vscale (sign env) (concat Jv0)) = dot v (vscale (sign env) acc')"
    by (simp add: dot_vscale_right)
  with J Jt lc la v show ?thesis
    by (simp add: s0_def)
qed

lemma stored_path_adjoint:
  assumes st: "storeJ env" and J: "priv_Jmatrix s = Some (Mat a)" and ok: "mat_ok a"
    and v: "length v = ncol a" and w: "length w = nrow a"
  shows "\<exists>Jv Jtv.
      Jvec env m v f s = (Inr Jv, s\<lparr>model := Some m\<rparr>) \<and>
      Jtvec env m w f s = (Inr (Vec Jtv), s\<lparr>model := Some m\<rparr>) \<and>
      length Jv = length w \<and> length Jtv = length v \<and> dot w Jv = dot v Jtv"
proof -
  from np_dot_adjoint [OF ok v w]
  obtain x y where x: "np_dot (Mat a) v = Inr x" and y: "np_dot (T (Mat a)) w = Inr y"
    and lx: "length x = length w" and ly: "length y = length v" and d: "dot w x = dot v y"
    by blast
  have g: "getJ env m f t = (Inr (Mat a), t\<lparr>model := Some m\<rparr>)"
    if "priv_Jmatrix t = Some (Mat a)" for t :: "'b sim"
    using that by (simp add: getJ.simps set_model_eq Let_def)
  have a: "Jvec env m v f s = (Inr (vscale (sign env) x), s\<lparr>model := Some m\<rparr>)"
    using st J x g [of "s\<lparr>model := Some m\<rparr>"]
    by (simp add: Jvec.simps set_model_eq Let_def)
  have b: "Jtvec env m w f s = (Inr (Vec (vscale (sign env) y)), s\<lparr>model := Some m\<rparr>)"
    using st J y g [of s] by (simp add: Jtvec_def)
  from a b lx ly d show ?thesis
    by (simp add: dot_vscale_right)
qed

lemma stored_products:
  assumes st: "storeJ env" and J: "priv_Jmatrix s = Some J"
  shows "Jvec env m v f s =
      (map_sum id (vscale (sign env)) (np_dot J v), s\<lparr>model := Some m\<rparr>)"
    and "Jtvec env m w f s =
      (map_sum id (\<lambda>x. Vec (vscale (sign env) x)) (np_dot (T J) w), s\<lparr>model := Some m\<rparr>)"
proof -
  have g: "getJ env m f t = (Inr J, t\<lparr>model := Some m\<rparr>)"
    if "priv_Jmatrix t = Some J" for t :: "'b sim"
    using that by (simp add: getJ.simps set_model_eq Let_def)
  show "Jvec env m v f s =
      (map_sum id (vscale (sign env)) (np_dot J v), s\<lparr>model := Some m\<rparr>)"
    using st J g [of "s\<lparr>model := Some m\<rparr>"]
    by (simp add: Jvec.simps set_model_eq Let_def split: sum.splits)
  show "Jtvec env m w f s =
      (map_sum id (\<lambda>x. Vec (vscale (sign env) x)) (np_dot (T J) w), s\<lparr>model := Some m\<rparr>)"
    using st J g [of s] by (simp add: Jtvec_def split: sum.splits)
qed

subsection \<open>The small instance meets the contracts\<close>

lemma length2E:
  assumes "length (v :: vec) = 2"
  obtains a b where "v = [a, b]"
  using assms by (auto simp: length_Suc_conv numeral_2_eq_2)

lemma ex_solve_symmetric: "solve_symmetric (ex_env sg st rhs) h n"
  by (simp add: solve_symmetric_def ex_env_def)

lemma ex_ADeriv_adjoint: "ADeriv_adjoint (ex_env sg st rhs) (Some [a, b]) [c, d] 2 2"
  unfolding ADeriv_adjoint_def
proof (intro allI impI)
  fix v y :: vec
  assume "length v = 2" "length y = 2"
  then obtain v0 v1 y0 y1 where "v = [v0, v1]" "y = [y0, y1]"
    by (auto elim!: length2E)
  then show "is_Delayed (getADeriv (ex_env sg st rhs) (Some [a, b]) [c, d] v False) \<and>
      is_Delayed (getADeriv (ex_env sg st rhs) (Some [a, b]) [c, d] y True) \<and>
      length (computed (getADeriv (ex_env sg st rhs) (Some [a, b]) [c, d] v False)) = 2 \<and>
      length (computed (getADeriv (ex_env sg st rhs) (Some [a, b]) [c, d] y True)) = 2 \<and>
      dot y (computed (getADeriv (ex_env sg st rhs) (Some [a, b]) [c, d] v False)) =
      dot v (computed (getADeriv (ex_env sg st rhs) (Some [a, b]) [c, d] y True))"
    by (simp add: ex_env_def ex_scale_def ex_dA_def)
qed

lemma ex_RHSDeriv_adjoint: "RHSDeriv_adjoint (ex_env sg st rhs) mo isrc 2 2"
  unfolding RHSDeriv_adjoint_def
proof (intro allI impI)
  fix v y :: vec
  assume "length v = 2" "length y = 2"
  then obtain v0 v1 y0 y1 where "v = [v0, v1]" "y = [y0, y1]"
    by (auto elim!: length2E)
  then show "is_Delayed (getRHSDeriv (ex_env sg st rhs) mo isrc v False) \<and>
      is_Delayed (getRHSDeriv (ex_env sg st rhs) mo isrc y True) \<and>
      length (computed (getRHSDeriv (ex_env sg st rhs) mo isrc v False)) = 2 \<and>
      length (computed (getRHSDeriv (ex_env sg st rhs) mo isrc y True)) = 2 \<and>
      dot y (computed (getRHSDeriv (ex_env sg st rhs) mo isrc v False)) =
      dot v (computed (getRHSDeriv (ex_env sg st rhs) mo isrc y True))"
    by (simp add: ex_env_def)
qed

lemma ex_rx_adjoint:
  assumes "k = 1 \<or> k = 2"
  shows "rx_adjoint (ex_env sg st rhs) us 2 2 isrc (ex_rx k)"
  unfolding rx_adjoint_def
proof (intro exI conjI allI impI)
  show "fieldDeriv (ex_env sg st rhs) us (projField (ex_rx k)) =
      Some (\<lambda>isrc du v. du, \<lambda>isrc y. (y, map (\<lambda>x. 0) y))"
    by (simp add: ex_env_def ex_rx_def)
next
  fix du v y :: vec
  assume "length du = 2" "length v = 2" "length y = 2"
  then obtain d0 d1 v0 v1 y0 y1 where "du = [d0, d1]" "v = [v0, v1]" "y = [y0, y1]"
    by (auto elim!: length2E)
  then show "length du = 2" "length (fst (y, map (\<lambda>x. 0) y)) = 2"
    "length (snd (y, map (\<lambda>x. 0) y)) = 2"
    "dot y du = dot du (fst (y, map (\<lambda>x. 0) y)) + dot v (snd (y, map (\<lambda>x. 0) y))"
    by simp_all
next
  fix x w :: vec
  assume x: "length x = 2" and w: "length w = rx_nD (ex_rx k)"
  from x obtain x0 x1 where xx: "x = [x0, x1]"
    by (auto elim!: length2E)
  from assms w have "(k = 1 \<and> (\<exists>w0. w = [w0])) \<or> (k = 2 \<and> (\<exists>w0 w1. w = [w0, w1]))"
    by (auto simp: ex_rx_def length_Suc_conv numeral_2_eq_2)
  then show "length (evalDeriv (ex_env sg st rhs) (ex_rx k) isrc us x False) = rx_nD (ex_rx k)"
    "length (evalDeriv (ex_env sg st rhs) (ex_rx k) isrc us w True) = 2"
    "dot w (evalDeriv (ex_env sg st rhs) (ex_rx k) isrc us x False) =
     dot x (evalDeriv (ex_env sg st rhs) (ex_rx k) isrc us w True)"
    using xx by (auto simp: ex_env_def ex_rx_def numeral_2_eq_2)
qed

lemma ex_ready_srcList: "srcList ex_ready = [\<lparr>rxList = [ex_rx 1, ex_rx 2]\<rparr>]"
  by code_simp

lemma len2: "length [a, b :: real] = 2"
  by simp

lemma ex_adjoint_survey:
  "adjoint_survey (ex_env sg st rhs) (Some [3, 5]) [[1, 2]] 2 2 0 (srcList ex_ready)"
  by (simp add: ex_ready_srcList ex_ADeriv_adjoint ex_RHSDeriv_adjoint ex_rx_adjoint)

subsection \<open>The first call with storage on a fresh instance\<close>

text \<open>
  With \<^verbatim>\<open>storeJ\<close> set and nothing cached, \<^verbatim>\<open>getJ(m)\<close> calls \<^verbatim>\<open>fields(m)\<close>, whose
  forward evaluation calls \<^verbatim>\<open>getJ\<close> again with the field object: the inner call
  stores the Jacobian and replaces \<^verbatim>\<open>self._f\<close> by the empty list, which
  \<^verbatim>\<open>fields\<close> then returns, and the outer call indexes it. So the first \<^verbatim>\<open>getJ\<close> or
  \<^verbatim>\<open>Jvec\<close> without a field object raises TypeError, and the second one finds the
  Jacobian that the first has stored.
\<close>

lemma fresh_storage_first_call:
  "fst (getJ (ex_env 1 True False) [3, 5] None ex_sim) = Inl TypeError \<and>
   fst (Jvec (ex_env 1 True False) [3, 5] [1, 1] None ex_sim) = Inl TypeError \<and>
   fst (Jvec (ex_env 1 True False) [3, 5] [1, 1] None
     (snd (Jvec (ex_env 1 True False) [3, 5] [1, 1] None ex_sim))) = Inr [- 3, - 3, - 10]"
  by code_simp

subsection \<open>The claims\<close>

text \<open>
  C7. When \<^verbatim>\<open>fields(m)\<close> has returned, calling it again without changing the model
  returns the same field object and leaves the instance as it was: the cached field
  object, the factorization handle and the count of factorizations are unchanged, so
  the system operator is neither built nor factorized a second time. Only the count of
  forward evaluations grows, because \<^verbatim>\<open>fields\<close> evaluates \<^verbatim>\<open>forward\<close> on every call.
\<close>

theorem fields_twice:
  assumes "fields env m s = (Inr f1, s1)"
  shows "fields env m s1 = (Inr f1, s1\<lparr>n_forward := Suc (n_forward s1)\<rparr>) \<and>
         priv_f (snd (fields env m s1)) = priv_f s1 \<and>
         Ainv (snd (fields env m s1)) = Ainv s1 \<and>
         n_factor (snd (fields env m s1)) = n_factor s1"
proof -
  from fields_post [OF assms] obtain fo d where f1: "f1 = Some fo" and fo: "priv_f s1 = Some fo"
    and p: "priv_pred s1 = Some d" and j: "Jvec env m m (Some fo) s1 = (Inr d, s1)"
    by blast
  from p have "s1\<lparr>n_forward := Suc (n_forward s1), priv_pred := Some d\<rparr>
      = s1\<lparr>n_forward := Suc (n_forward s1)\<rparr>"
    by (simp add: upd_same)
  with fo j f1 have "fields env m s1 = (Inr f1, s1\<lparr>n_forward := Suc (n_forward s1)\<rparr>)"
    by (simp add: fields_eq Jvec_Some_upd_n_forward)
  then show ?thesis by simp
qed

theorem fields_twice_witness:
  "fst (fields (ex_env 1 False False) [3, 5] ex_sim) = Inr (Some (Computed [[1, 2]])) \<and>
   fst (fields (ex_env 1 False False) [3, 5] (snd (fields (ex_env 1 False False) [3, 5] ex_sim)))
     = Inr (Some (Computed [[1, 2]])) \<and>
   n_factor (snd (fields (ex_env 1 False False) [3, 5]
     (snd (fields (ex_env 1 False False) [3, 5] ex_sim)))) = 1"
proof -
  have a: "fst (fields (ex_env 1 False False) [3, 5] ex_sim) = Inr (Some (Computed [[1, 2]]))"
    by code_simp
  have b: "n_factor (snd (fields (ex_env 1 False False) [3, 5] ex_sim)) = 1"
    by code_simp
  have h: "fields (ex_env 1 False False) [3, 5] ex_sim =
      (Inr (Some (Computed [[1, 2]])), snd (fields (ex_env 1 False False) [3, 5] ex_sim))"
    using a by (simp add: prod_eq_iff)
  show ?thesis
    using a b fields_twice [OF h] by simp
qed

text \<open>
  C10. When a field object is supplied, \<^verbatim>\<open>dpred\<close> ignores it and the model, changes
  nothing and returns the cached prediction \<^verbatim>\<open>self._pred\<close>; on an instance whose
  \<^verbatim>\<open>_pred\<close> is still the class default, it returns None.
\<close>

theorem dpred_supplied_field:
  "dpred env m (Some f) s = (Inr (priv_pred s), s) \<and>
   dpred env m (Some f) (s\<lparr>priv_pred := None\<rparr>) = (Inr None, s\<lparr>priv_pred := None\<rparr>)"
  by (simp add: dpred_def)

theorem dpred_supplied_field_witness:
  "dpred (ex_env 1 False False) [3, 5] (Some Cleared) ex_sim = (Inr None, ex_sim) \<and>
   dpred (ex_env 1 False False) [7, 7] (Some Cleared) ex_ready = (Inr (Some [- 9, - 9, - 50]), ex_ready)"
proof -
  have a: "priv_pred ex_sim = None"
    by (simp add: ex_sim_def)
  have b: "priv_pred ex_ready = Some [- 9, - 9, - 50]"
    by code_simp
  show ?thesis
    using dpred_supplied_field [where env = "ex_env 1 False False" and m = "[3, 5]"
        and f = Cleared and s = ex_sim]
      dpred_supplied_field [where env = "ex_env 1 False False" and m = "[7, 7]"
        and f = Cleared and s = ex_ready] a b
    by simp
qed

text \<open>
  C3. The sign reaches the result of \<^verbatim>\<open>_Jtvec\<close> only when a direction vector is
  given: the full matrix (\<^verbatim>\<open>v = None\<close>) is the same whatever the sign constant, and
  with a direction vector the result is the accumulated vector, which is what the
  sign \<open>1\<close> returns, multiplied by the sign constant.
\<close>

theorem priv_Jtvec_sign_only_with_direction:
  "priv_Jtvec (env\<lparr>sign := c\<rparr>) m None f s = priv_Jtvec env m None f s \<and>
   priv_Jtvec (env\<lparr>sign := c\<rparr>) m (Some v) f s =
     map_sum id (\<lambda>r. Vec (vscale c (mkvc r))) (priv_Jtvec (env\<lparr>sign := 1\<rparr>) m (Some v) f s)"
proof
  show "priv_Jtvec (env\<lparr>sign := c\<rparr>) m None f s = priv_Jtvec env m None f s"
    by (simp add: priv_Jtvec_def Jtvec_srcs_sign cong: sum.case_cong option.case_cong)
  have one: "vscale 1 x = x" for x
    by (induction x) (simp_all add: vscale_def)
  show "priv_Jtvec (env\<lparr>sign := c\<rparr>) m (Some v) f s =
     map_sum id (\<lambda>r. Vec (vscale c (mkvc r))) (priv_Jtvec (env\<lparr>sign := 1\<rparr>) m (Some v) f s)"
    by (simp add: priv_Jtvec_def Jtvec_srcs_sign one mkvc_def split: sum.splits prod.splits)
qed

theorem priv_Jtvec_sign_only_with_direction_witness:
  "priv_Jtvec ((ex_env 1 False False)\<lparr>sign := - 1\<rparr>) [3, 5] None (priv_f ex_ready) ex_ready =
     Inr (Mat \<lparr>nrow = 2, ncol = 3, ord = F, lines = [[- 3, 0], [- 3, 0], [0, - 10]]\<rparr>) \<and>
   priv_Jtvec (ex_env 1 False False) [3, 5] None (priv_f ex_ready) ex_ready =
     Inr (Mat \<lparr>nrow = 2, ncol = 3, ord = F, lines = [[- 3, 0], [- 3, 0], [0, - 10]]\<rparr>) \<and>
   priv_Jtvec ((ex_env 1 False False)\<lparr>sign := 1\<rparr>) [3, 5] (Some [1, 1, 1]) (priv_f ex_ready) ex_ready =
     Inr (Vec [- 6, - 10]) \<and>
   priv_Jtvec ((ex_env 1 False False)\<lparr>sign := - 1\<rparr>) [3, 5] (Some [1, 1, 1]) (priv_f ex_ready) ex_ready =
     Inr (Vec [6, 10])"
proof -
  have a: "priv_Jtvec (ex_env 1 False False) [3, 5] None (priv_f ex_ready) ex_ready =
     Inr (Mat \<lparr>nrow = 2, ncol = 3, ord = F, lines = [[- 3, 0], [- 3, 0], [0, - 10]]\<rparr>)"
    by code_simp
  have b: "priv_Jtvec ((ex_env 1 False False)\<lparr>sign := 1\<rparr>) [3, 5] (Some [1, 1, 1])
      (priv_f ex_ready) ex_ready = Inr (Vec [- 6, - 10])"
    by code_simp
  show ?thesis
    using a b
      priv_Jtvec_sign_only_with_direction [where env = "ex_env 1 False False" and c = "- 1"
        and m = "[3, 5]" and f = "priv_f ex_ready" and s = ex_ready and v = "[1, 1, 1]"]
    by (simp add: vscale_def mkvc_def)
qed

text \<open>
  C9. \<^verbatim>\<open>forward(m, f)\<close> is \<^verbatim>\<open>Jvec(m, m, f)\<close>: the direction is the model itself (the
  ghost counter of forward evaluations apart). So the prediction that a successful
  \<^verbatim>\<open>fields(m)\<close> caches is the sign times the cached Jacobian applied to \<open>m\<close> when the
  Jacobian is stored, and the sign times the stacked receiver derivatives in the
  direction \<open>m\<close> when it is not.
\<close>

theorem forward_is_Jvec_of_model:
  "forward env m f s = Jvec env m m f (s\<lparr>n_forward := Suc (n_forward s)\<rparr>) \<and>
   (storeJ env \<longrightarrow> fields env m s = (Inr f1, s1) \<longrightarrow>
      (\<exists>J x. priv_Jmatrix s1 = Some J \<and> np_dot J m = Inr x \<and>
             priv_pred s1 = Some (vscale (sign env) x))) \<and>
   (\<not> storeJ env \<longrightarrow> fields env m s = (Inr f1, s1) \<longrightarrow>
      (\<exists>Jv x. Jvec_srcs env s1 f1 m 0 (srcList s1) = Inr Jv \<and> hstack Jv = Inr x \<and>
              priv_pred s1 = Some (vscale (sign env) x)))"
proof (intro conjI impI)
  show "forward env m f s = Jvec env m m f (s\<lparr>n_forward := Suc (n_forward s)\<rparr>)"
    by (simp add: forward.simps)
next
  assume st: "storeJ env" and fl: "fields env m s = (Inr f1, s1)"
  from fields_post [OF fl] obtain fo d where p: "priv_pred s1 = Some d"
    and ms: "model s1 = Some m" and j: "Jvec env m m (Some fo) s1 = (Inr d, s1)"
    by blast
  from ms have u: "s1\<lparr>model := Some m\<rparr> = s1" by (simp add: upd_same)
  obtain r1 t1 where g: "getJ env m (Some fo) s1 = (r1, t1)"
    by (cases "getJ env m (Some fo) s1") auto
  from j st g u obtain J x where r1: "r1 = Inr J" and t1: "t1 = s1"
    and x: "np_dot J m = Inr x" and d: "d = vscale (sign env) x"
    by (auto simp: Jvec_Some split: sum.splits)
  from g r1 t1 have "priv_Jmatrix s1 = Some J"
    using getJ_Some_result by blast
  with x d p show "\<exists>J x. priv_Jmatrix s1 = Some J \<and> np_dot J m = Inr x \<and>
             priv_pred s1 = Some (vscale (sign env) x)"
    by blast
next
  assume st: "\<not> storeJ env" and fl: "fields env m s = (Inr f1, s1)"
  from fields_post [OF fl] obtain fo d where f1: "f1 = Some fo" and p: "priv_pred s1 = Some d"
    and ms: "model s1 = Some m" and j: "Jvec env m m (Some fo) s1 = (Inr d, s1)"
    by blast
  from ms have u: "s1\<lparr>model := Some m\<rparr> = s1" by (simp add: upd_same)
  from j st u obtain Jv x where "Jvec_srcs env s1 (Some fo) m 0 (srcList s1) = Inr Jv"
    and "hstack Jv = Inr x" and "d = vscale (sign env) x"
    by (auto simp: Jvec_Some split: sum.splits)
  with f1 p show "\<exists>Jv x. Jvec_srcs env s1 f1 m 0 (srcList s1) = Inr Jv \<and> hstack Jv = Inr x \<and>
              priv_pred s1 = Some (vscale (sign env) x)"
    by blast
qed

theorem forward_is_Jvec_of_model_witness:
  "fst (fields (ex_env 1 True False) [3, 5] ex_sim) = Inr (Some Cleared) \<and>
   (\<exists>J x. priv_Jmatrix (snd (fields (ex_env 1 True False) [3, 5] ex_sim)) = Some J \<and>
      np_dot J [3, 5] = Inr x \<and>
      priv_pred (snd (fields (ex_env 1 True False) [3, 5] ex_sim)) = Some (vscale 1 x)) \<and>
   fst (fields (ex_env 1 False False) [3, 5] ex_sim) = Inr (Some (Computed [[1, 2]])) \<and>
   (\<exists>Jv x. Jvec_srcs (ex_env 1 False False) (snd (fields (ex_env 1 False False) [3, 5] ex_sim))
        (Some (Computed [[1, 2]])) [3, 5] 0
        (srcList (snd (fields (ex_env 1 False False) [3, 5] ex_sim))) = Inr Jv \<and>
      hstack Jv = Inr x \<and>
      priv_pred (snd (fields (ex_env 1 False False) [3, 5] ex_sim)) = Some (vscale 1 x))"
proof -
  have a: "fst (fields (ex_env 1 True False) [3, 5] ex_sim) = Inr (Some Cleared)"
    by code_simp
  have b: "fst (fields (ex_env 1 False False) [3, 5] ex_sim) = Inr (Some (Computed [[1, 2]]))"
    by code_simp
  have ha: "fields (ex_env 1 True False) [3, 5] ex_sim =
      (Inr (Some Cleared), snd (fields (ex_env 1 True False) [3, 5] ex_sim))"
    using a by (simp add: prod_eq_iff)
  have hb: "fields (ex_env 1 False False) [3, 5] ex_sim =
      (Inr (Some (Computed [[1, 2]])), snd (fields (ex_env 1 False False) [3, 5] ex_sim))"
    using b by (simp add: prod_eq_iff)
  have st: "storeJ (ex_env 1 True False)" "\<not> storeJ (ex_env 1 False False)"
    "sign (ex_env 1 True False) = 1" "sign (ex_env 1 False False) = 1"
    by (simp_all add: ex_env_def)
  show ?thesis
    using a b st
      forward_is_Jvec_of_model [where env = "ex_env 1 True False" and m = "[3, 5]" and f = None
        and s = ex_sim and ?f1.0 = "Some Cleared"
        and ?s1.0 = "snd (fields (ex_env 1 True False) [3, 5] ex_sim)"]
      forward_is_Jvec_of_model [where env = "ex_env 1 False False" and m = "[3, 5]" and f = None
        and s = ex_sim and ?f1.0 = "Some (Computed [[1, 2]])"
        and ?s1.0 = "snd (fields (ex_env 1 False False) [3, 5] ex_sim)"]
    by (simp add: ha [symmetric] hb [symmetric])
qed

text \<open>
  C5, as the code has it. Assigning the model invalidates nothing:
  \<^verbatim>\<open>deleteTheseOnModelUpdate\<close> is empty, so the assignment changes the model attribute
  only, and \<^verbatim>\<open>getJ\<close> on an instance that holds a Jacobian returns that Jacobian for
  every model.
\<close>

theorem getJ_returns_cached_for_any_model:
  "set_model m s = s\<lparr>model := Some m\<rparr> \<and>
   (priv_Jmatrix s = Some J \<longrightarrow> getJ env m f s = (Inr J, s\<lparr>model := Some m\<rparr>))"
  by (simp add: getJ.simps set_model_eq Let_def)

theorem getJ_returns_cached_for_any_model_witness:
  "priv_Jmatrix ex_stored =
     Some (Mat \<lparr>nrow = 3, ncol = 2, ord = C, lines = [[- 3, 0], [- 3, 0], [0, - 10]]\<rparr>) \<and>
   getJ (ex_env 1 False False) [1, 1] None ex_stored =
     (Inr (Mat \<lparr>nrow = 3, ncol = 2, ord = C, lines = [[- 3, 0], [- 3, 0], [0, - 10]]\<rparr>),
      ex_stored\<lparr>model := Some [1, 1]\<rparr>)"
proof -
  have a: "priv_Jmatrix ex_stored =
     Some (Mat \<lparr>nrow = 3, ncol = 2, ord = C, lines = [[- 3, 0], [- 3, 0], [0, - 10]]\<rparr>)"
    by code_simp
  show ?thesis
    using a getJ_returns_cached_for_any_model [where m = "[1, 1]" and s = ex_stored
        and J = "Mat \<lparr>nrow = 3, ncol = 2, ord = C, lines = [[- 3, 0], [- 3, 0], [0, - 10]]\<rparr>"
        and env = "ex_env 1 False False" and f = None]
    by simp
qed

text \<open>
  The claim C5 as stated fails: the Jacobian of the model \<open>[3, 5]\<close> is cached, the
  model is changed to \<open>[1, 1]\<close>, and \<^verbatim>\<open>getJ\<close> returns the Jacobian of \<open>[3, 5]\<close>, which
  is not the Jacobian a fresh instance computes for \<open>[1, 1]\<close>.
\<close>

theorem getJ_stale_counterexample:
  "fst (getJ (ex_env 1 False False) [1, 1] None ex_stored) =
     Inr (Mat \<lparr>nrow = 3, ncol = 2, ord = C, lines = [[- 3, 0], [- 3, 0], [0, - 10]]\<rparr>) \<and>
   model (snd (getJ (ex_env 1 False False) [1, 1] None ex_stored)) = Some [1, 1] \<and>
   fst (getJ (ex_env 1 False False) [1, 1] None ex_sim) =
     Inr (Mat \<lparr>nrow = 3, ncol = 2, ord = C, lines = [[- 1, 0], [- 1, 0], [0, - 2]]\<rparr>)"
  by code_simp

text \<open>
  C6, as the code has it. \<^verbatim>\<open>dpred(m)\<close> without a field object runs \<^verbatim>\<open>fields(m)\<close> every
  time: each call makes one forward evaluation, the value returned does not depend on
  the prediction that was cached, and it is the prediction the call has just computed
  and stored. What a cached field object saves is the factorization.
\<close>

theorem dpred_recomputes:
  "n_forward (snd (dpred env m None s)) = Suc (n_forward s) \<and>
   fst (dpred env m None (s\<lparr>priv_pred := p\<rparr>)) = fst (dpred env m None s) \<and>
   (dpred env m None s = (Inr r, s') \<longrightarrow>
      r = priv_pred s' \<and>
      (\<exists>fo d. priv_f s' = Some fo \<and> r = Some d \<and> Jvec env m m (Some fo) s' = (Inr d, s'))) \<and>
   (priv_f s \<noteq> None \<longrightarrow> n_factor (snd (dpred env m None s)) = n_factor s)"
proof -
  obtain r1 s1 where f: "fields env m s = (r1, s1)"
    by (cases "fields env m s") auto
  then have d: "snd (dpred env m None s) = s1"
    by (simp add: dpred_def split: sum.splits)
  from fields_frame [OF f] d
  have p1: "n_forward (snd (dpred env m None s)) = Suc (n_forward s)"
    by simp
  have p4: "n_factor (snd (dpred env m None s)) = n_factor s" if "priv_f s \<noteq> None"
    using fields_frame [OF f] d that by simp
  have p2: "fst (dpred env m None (s\<lparr>priv_pred := p\<rparr>)) = fst (dpred env m None s)"
    by (simp add: dpred_def fields_upd_pred split: prod.splits sum.splits)
  have p3: "r = priv_pred s' \<and>
      (\<exists>fo d. priv_f s' = Some fo \<and> r = Some d \<and> Jvec env m m (Some fo) s' = (Inr d, s'))"
    if a: "dpred env m None s = (Inr r, s')"
  proof -
    from a obtain f1 where g: "fields env m s = (Inr f1, s')" and r: "r = priv_pred s'"
      by (auto simp: dpred_def split: sum.splits prod.splits)
    from fields_post [OF g] r show ?thesis
      by auto
  qed
  from p1 p2 p3 p4 show ?thesis
    by blast
qed

theorem dpred_recomputes_witness:
  "dpred (ex_env 1 False False) [3, 5] None ex_ready =
     (Inr (Some [- 9, - 9, - 50]), snd (dpred (ex_env 1 False False) [3, 5] None ex_ready)) \<and>
   n_forward ex_ready = 1 \<and>
   n_forward (snd (dpred (ex_env 1 False False) [3, 5] None ex_ready)) = 2 \<and>
   n_factor (snd (dpred (ex_env 1 False False) [3, 5] None ex_ready)) = n_factor ex_ready \<and>
   Some [- 9, - 9, - 50] = priv_pred (snd (dpred (ex_env 1 False False) [3, 5] None ex_ready))"
proof -
  have a: "fst (dpred (ex_env 1 False False) [3, 5] None ex_ready) = Inr (Some [- 9, - 9, - 50])"
    by code_simp
  have h: "dpred (ex_env 1 False False) [3, 5] None ex_ready =
     (Inr (Some [- 9, - 9, - 50]), snd (dpred (ex_env 1 False False) [3, 5] None ex_ready))"
    using a by (simp add: prod_eq_iff)
  have b: "n_forward ex_ready = 1" "priv_f ex_ready \<noteq> None"
    by code_simp+
  show ?thesis
    using h b dpred_recomputes [where env = "ex_env 1 False False" and m = "[3, 5]"
        and s = ex_ready and p = None and r = "Some [- 9, - 9, - 50]"
        and s' = "snd (dpred (ex_env 1 False False) [3, 5] None ex_ready)"]
    by simp
qed

text \<open>
  The claim C6 as stated fails. On \<open>ex_ready\<close> a prediction is cached for the model
  \<open>[3, 5]\<close>, and \<^verbatim>\<open>dpred([3, 5])\<close> makes a second forward evaluation. On \<open>ex_stored\<close>
  the same prediction is cached for the same model, and \<^verbatim>\<open>dpred([3, 5])\<close> raises
  TypeError instead of returning it, because the recomputation reads the field object
  that \<^verbatim>\<open>getJ\<close> has replaced by an empty list.
\<close>

theorem dpred_cached_counterexample:
  "priv_pred ex_ready = Some [- 9, - 9, - 50] \<and> model ex_ready = Some [3, 5] \<and>
   n_forward ex_ready = 1 \<and>
   n_forward (snd (dpred (ex_env 1 False False) [3, 5] None ex_ready)) = 2 \<and>
   priv_pred ex_stored = Some [- 9, - 9, - 50] \<and> model ex_stored = Some [3, 5] \<and>
   fst (dpred (ex_env 1 False False) [3, 5] None ex_stored) = Inl TypeError"
  by code_simp

text \<open>
  C8, as the code has it. Neither \<^verbatim>\<open>Jvec\<close> nor \<^verbatim>\<open>Jtvec\<close> checks the length of its
  vector. Whatever the vector, the instance is left as \<^verbatim>\<open>fields(m)\<close> leaves it (no
  storage, no field object supplied) or as \<^verbatim>\<open>getJ(m, f)\<close> leaves it (storage): that
  work is done first. With storage and a cached matrix, a length that does not fit the
  matrix is reported by the dense product as ValueError.
\<close>

theorem Jvec_Jtvec_no_length_check:
  "(\<not> storeJ env \<longrightarrow>
      snd (Jvec env m v None s) = snd (fields env m (s\<lparr>model := Some m\<rparr>)) \<and>
      snd (Jtvec env m w None s) = snd (fields env m (s\<lparr>model := Some m\<rparr>))) \<and>
   (storeJ env \<longrightarrow>
      snd (Jvec env m v f s) = snd (getJ env m f (s\<lparr>model := Some m\<rparr>)) \<and>
      snd (Jtvec env m w f s) = snd (getJ env m f s)) \<and>
   (storeJ env \<longrightarrow> priv_Jmatrix s = Some (Mat a) \<longrightarrow>
      (ncol a \<noteq> length v \<longrightarrow> Jvec env m v f s = (Inl ValueError, s\<lparr>model := Some m\<rparr>)) \<and>
      (nrow a \<noteq> length w \<longrightarrow> Jtvec env m w f s = (Inl ValueError, s\<lparr>model := Some m\<rparr>)))"
proof -
  have p1: "snd (Jvec env m v None s) = snd (fields env m (s\<lparr>model := Some m\<rparr>))"
    if "\<not> storeJ env"
    using that
    by (simp add: Jvec.simps set_model_eq Let_def split: prod.splits sum.splits)
  have p2: "snd (Jtvec env m w None s) = snd (fields env m (s\<lparr>model := Some m\<rparr>))"
    if "\<not> storeJ env"
    using that
    by (simp add: Jtvec_def set_model_eq Let_def split: prod.splits sum.splits)
  have p3: "snd (Jvec env m v f s) = snd (getJ env m f (s\<lparr>model := Some m\<rparr>))"
    if "storeJ env"
    using that
    by (simp add: Jvec.simps set_model_eq Let_def split: prod.splits sum.splits)
  have p4: "snd (Jtvec env m w f s) = snd (getJ env m f s)"
    if "storeJ env"
    using that
    by (simp add: Jtvec_def split: prod.splits sum.splits)
  have g: "getJ env m f t = (Inr (Mat a), t\<lparr>model := Some m\<rparr>)"
    if "priv_Jmatrix t = Some (Mat a)" for t :: "'b sim"
    using that by (simp add: getJ.simps set_model_eq Let_def)
  have p5: "Jvec env m v f s = (Inl ValueError, s\<lparr>model := Some m\<rparr>)"
    if "storeJ env" "priv_Jmatrix s = Some (Mat a)" "ncol a \<noteq> length v"
    using that g [of "s\<lparr>model := Some m\<rparr>"]
    by (simp add: Jvec.simps set_model_eq Let_def np_dot_def)
  have p6: "Jtvec env m w f s = (Inl ValueError, s\<lparr>model := Some m\<rparr>)"
    if "storeJ env" "priv_Jmatrix s = Some (Mat a)" "nrow a \<noteq> length w"
    using that g [of s]
    by (simp add: Jtvec_def np_dot_def T_def transpose2_def)
  from p1 p2 p3 p4 p5 p6 show ?thesis
    by blast
qed

theorem Jvec_Jtvec_no_length_check_witness:
  "snd (Jvec (ex_env 1 False False) [3, 5] [1, 1, 1, 1, 1] None ex_sim) =
     snd (fields (ex_env 1 False False) [3, 5] (ex_sim\<lparr>model := Some [3, 5]\<rparr>)) \<and>
   Jvec (ex_env 1 True False) [3, 5] [1, 1, 1] None ex_stored =
     (Inl ValueError, ex_stored\<lparr>model := Some [3, 5]\<rparr>) \<and>
   Jtvec (ex_env 1 True False) [3, 5] [1, 1] None ex_stored =
     (Inl ValueError, ex_stored\<lparr>model := Some [3, 5]\<rparr>)"
proof -
  have a: "priv_Jmatrix ex_stored =
     Some (Mat \<lparr>nrow = 3, ncol = 2, ord = C, lines = [[- 3, 0], [- 3, 0], [0, - 10]]\<rparr>)"
    by code_simp
  have st: "storeJ (ex_env 1 True False)" "\<not> storeJ (ex_env 1 False False)"
    by (simp_all add: ex_env_def)
  show ?thesis
    using a st
      Jvec_Jtvec_no_length_check [where env = "ex_env 1 False False" and m = "[3, 5]"
        and v = "[1, 1, 1, 1, 1]" and s = ex_sim and w = "[1, 1]" and f = None
        and a = "\<lparr>nrow = 3, ncol = 2, ord = C, lines = [[- 3, 0], [- 3, 0], [0, - 10]]\<rparr>"]
      Jvec_Jtvec_no_length_check [where env = "ex_env 1 True False" and m = "[3, 5]"
        and v = "[1, 1, 1]" and s = ex_stored and w = "[1, 1]" and f = None
        and a = "\<lparr>nrow = 3, ncol = 2, ord = C, lines = [[- 3, 0], [- 3, 0], [0, - 10]]\<rparr>"]
    by simp
qed

text \<open>
  The claim C8 as stated fails. Without storage, \<^verbatim>\<open>Jvec\<close> with a direction of length
  5 on a fresh instance with two cells has built the factorization and solved for the
  fields before it raises. With storage, \<^verbatim>\<open>Jvec\<close> with a direction of length 3 and
  the field object of \<open>ex_ready\<close> has assembled and cached the Jacobian, emptied the
  field object and cleaned the factorization before the dense product raises.
\<close>

theorem Jvec_wrong_length_counterexample:
  "n_factor ex_sim = 0 \<and> priv_f ex_sim = None \<and>
   fst (Jvec (ex_env 1 False False) [3, 5] [1, 1, 1, 1, 1] None ex_sim) = Inl ValueError \<and>
   n_factor (snd (Jvec (ex_env 1 False False) [3, 5] [1, 1, 1, 1, 1] None ex_sim)) = 1 \<and>
   priv_f (snd (Jvec (ex_env 1 False False) [3, 5] [1, 1, 1, 1, 1] None ex_sim)) =
     Some (Computed [[1, 2]]) \<and>
   priv_Jmatrix ex_ready = None \<and> Ainv ex_ready = Some False \<and>
   fst (Jvec (ex_env 1 True False) [3, 5] [1, 1, 1] (priv_f ex_ready) ex_ready) = Inl ValueError \<and>
   priv_Jmatrix (snd (Jvec (ex_env 1 True False) [3, 5] [1, 1, 1] (priv_f ex_ready) ex_ready)) =
     Some (Mat \<lparr>nrow = 3, ncol = 2, ord = C, lines = [[- 3, 0], [- 3, 0], [0, - 10]]\<rparr>) \<and>
   priv_f (snd (Jvec (ex_env 1 True False) [3, 5] [1, 1, 1] (priv_f ex_ready) ex_ready)) =
     Some Cleared \<and>
   Ainv (snd (Jvec (ex_env 1 True False) [3, 5] [1, 1, 1] (priv_f ex_ready) ex_ready)) = Some True"
  by code_simp

text \<open>
  C4. The full-matrix branch of \<^verbatim>\<open>_Jtvec\<close> (\<^verbatim>\<open>v = None\<close>) does not do what the
  claim says, and what the direction branch of the same method does. It never calls
  \<^verbatim>\<open>getRHSDeriv\<close>: its result is the same whatever the derivative of the right-hand
  side is. On the small instance with a right-hand side that depends on the model, the
  columns it writes are \<open>[-3, 0]\<close>, \<open>[-3, 0]\<close>, \<open>[0, -10]\<close>, the negated operator
  derivatives alone; the sums of the two derivatives, which the claim describes, are
  \<open>[-2, 0]\<close>, \<open>[-2, 0]\<close>, \<open>[0, -9]\<close>, and these are what the direction branch returns
  against the three unit vectors. It also assigns what \<^verbatim>\<open>getADeriv\<close> returns to the
  buffer as it is: with \<^verbatim>\<open>getADeriv\<close> wrapped in \<^verbatim>\<open>dask.delayed\<close>, which is what
  \<^verbatim>\<open>da.from_delayed\<close> in the direction branch asks for, the assignment raises and no
  column is written.
\<close>

theorem full_matrix_branch_omits_rhs_derivative:
  "priv_Jtvec (env\<lparr>getRHSDeriv := g\<rparr>) m None f s = priv_Jtvec env m None f s \<and>
   priv_Jtvec (ex_env 1 False True) [3, 5] None (Some (Computed [[1, 2]])) ex_ready =
     Inr (Mat \<lparr>nrow = 2, ncol = 3, ord = F, lines = [[- 3, 0], [- 3, 0], [0, - 10]]\<rparr>) \<and>
   spec_Jt_columns (ex_env 1 False True) (Some [3, 5]) [[1, 2]] False 0 (srcList ex_ready) =
     [[- 2, 0], [- 2, 0], [0, - 9]] \<and>
   priv_Jtvec (ex_env 1 False True) [3, 5] (Some [1, 0, 0]) (Some (Computed [[1, 2]])) ex_ready =
     Inr (Vec [- 2, 0]) \<and>
   priv_Jtvec (ex_env 1 False True) [3, 5] (Some [0, 1, 0]) (Some (Computed [[1, 2]])) ex_ready =
     Inr (Vec [- 2, 0]) \<and>
   priv_Jtvec (ex_env 1 False True) [3, 5] (Some [0, 0, 1]) (Some (Computed [[1, 2]])) ex_ready =
     Inr (Vec [0, - 9]) \<and>
   isl (priv_Jtvec (ex_env_delayed 1 False True) [3, 5] None (Some (Computed [[1, 2]])) ex_ready)"
proof (intro conjI)
  show "priv_Jtvec (env\<lparr>getRHSDeriv := g\<rparr>) m None f s = priv_Jtvec env m None f s"
  proof (cases "model s")
    case None
    then show ?thesis
      by (simp add: priv_Jtvec_def)
  next
    case (Some mo)
    then show ?thesis
      by (simp add: priv_Jtvec_def Jtvec_srcs_None_getRHSDeriv split: sum.splits prod.splits)
  qed
  show "priv_Jtvec (ex_env 1 False True) [3, 5] None (Some (Computed [[1, 2]])) ex_ready =
     Inr (Mat \<lparr>nrow = 2, ncol = 3, ord = F, lines = [[- 3, 0], [- 3, 0], [0, - 10]]\<rparr>)"
    by code_simp
  show "spec_Jt_columns (ex_env 1 False True) (Some [3, 5]) [[1, 2]] False 0 (srcList ex_ready) =
     [[- 2, 0], [- 2, 0], [0, - 9]]"
    by code_simp
  show "priv_Jtvec (ex_env 1 False True) [3, 5] (Some [1, 0, 0]) (Some (Computed [[1, 2]]))
      ex_ready = Inr (Vec [- 2, 0])"
    by code_simp
  show "priv_Jtvec (ex_env 1 False True) [3, 5] (Some [0, 1, 0]) (Some (Computed [[1, 2]]))
      ex_ready = Inr (Vec [- 2, 0])"
    by code_simp
  show "priv_Jtvec (ex_env 1 False True) [3, 5] (Some [0, 0, 1]) (Some (Computed [[1, 2]]))
      ex_ready = Inr (Vec [0, - 9])"
    by code_simp
  show "isl (priv_Jtvec (ex_env_delayed 1 False True) [3, 5] None (Some (Computed [[1, 2]]))
      ex_ready)"
    by code_simp
qed

text \<open>
  C1. \<^verbatim>\<open>Jtvec\<close> is the adjoint of \<^verbatim>\<open>Jvec\<close>: for a direction \<open>v\<close> with one entry per
  cell and a data vector \<open>w\<close> with one entry per observation, both calls return, and
  \<open>dot w (Jvec v) = dot v (Jtvec w)\<close>. In exact arithmetic the identity is an
  equality. On the adjoint-state path (no storage) it holds when the collaborators
  keep their adjoint contracts: the solve is symmetric, \<^verbatim>\<open>getADeriv\<close> and
  \<^verbatim>\<open>getRHSDeriv\<close> return a \<^verbatim>\<open>Delayed\<close>, the adjoint forms of
  \<^verbatim>\<open>getADeriv\<close>, \<^verbatim>\<open>getRHSDeriv\<close>, the field derivative and \<^verbatim>\<open>rx.evalDeriv\<close> are the
  adjoints of the direct forms, and the data object slices \<open>w\<close> by receiver; the
  survey has a receiver, since \<^verbatim>\<open>np.hstack\<close> of an empty list raises. With storage
  it holds for every cached \<open>(nD, nC)\<close> matrix.
\<close>

theorem Jtvec_adjoint_of_Jvec:
  assumes v: "length v = length m" and w: "length w = survey_nD (srcList s)"
  shows "(\<not> storeJ env \<longrightarrow> Ainv s = Some h \<longrightarrow> solve_symmetric env h n \<longrightarrow>
      adjoint_survey env (Some m) us n (length m) 0 (srcList s) \<longrightarrow>
      Data env (srcList s) w = Inr d \<longrightarrow> sliced d 0 (srcList s) w \<longrightarrow>
      concat (map rxList (srcList s)) \<noteq> [] \<longrightarrow>
      (\<exists>Jv Jtv.
         Jvec env m v (Some (Computed us)) s = (Inr Jv, s\<lparr>model := Some m\<rparr>) \<and>
         Jtvec env m w (Some (Computed us)) s = (Inr (Vec Jtv), s\<lparr>model := Some m\<rparr>) \<and>
         length Jv = length w \<and> length Jtv = length v \<and> dot w Jv = dot v Jtv)) \<and>
    (storeJ env \<longrightarrow> priv_Jmatrix s = Some (Mat a) \<longrightarrow> mat_ok a \<longrightarrow>
      nrow a = survey_nD (srcList s) \<longrightarrow> ncol a = length m \<longrightarrow>
      (\<exists>Jv Jtv.
         Jvec env m v f s = (Inr Jv, s\<lparr>model := Some m\<rparr>) \<and>
         Jtvec env m w f s = (Inr (Vec Jtv), s\<lparr>model := Some m\<rparr>) \<and>
         length Jv = length w \<and> length Jtv = length v \<and> dot w Jv = dot v Jtv))"
proof (intro conjI impI)
  assume "\<not> storeJ env" "Ainv s = Some h" "solve_symmetric env h n"
    "adjoint_survey env (Some m) us n (length m) 0 (srcList s)"
    "Data env (srcList s) w = Inr d" "sliced d 0 (srcList s) w"
    "concat (map rxList (srcList s)) \<noteq> []"
  then show "\<exists>Jv Jtv.
         Jvec env m v (Some (Computed us)) s = (Inr Jv, s\<lparr>model := Some m\<rparr>) \<and>
         Jtvec env m w (Some (Computed us)) s = (Inr (Vec Jtv), s\<lparr>model := Some m\<rparr>) \<and>
         length Jv = length w \<and> length Jtv = length v \<and> dot w Jv = dot v Jtv"
    using v w by (rule adjoint_state_path)
next
  assume st: "storeJ env" and J: "priv_Jmatrix s = Some (Mat a)" and ok: "mat_ok a"
    and nr: "nrow a = survey_nD (srcList s)" and nc: "ncol a = length m"
  from v nc have v': "length v = ncol a" by simp
  from w nr have w': "length w = nrow a" by simp
  show "\<exists>Jv Jtv.
         Jvec env m v f s = (Inr Jv, s\<lparr>model := Some m\<rparr>) \<and>
         Jtvec env m w f s = (Inr (Vec Jtv), s\<lparr>model := Some m\<rparr>) \<and>
         length Jv = length w \<and> length Jtv = length v \<and> dot w Jv = dot v Jtv"
    by (rule stored_path_adjoint [OF st J ok v' w'])
qed

theorem Jtvec_adjoint_of_Jvec_witness:
  "(\<exists>Jv Jtv.
      Jvec (ex_env (- 1) False True) [3, 5] [1, 1] (Some (Computed [[1, 2]])) ex_ready =
        (Inr Jv, ex_ready\<lparr>model := Some [3, 5]\<rparr>) \<and>
      Jtvec (ex_env (- 1) False True) [3, 5] [1, 1, 1] (Some (Computed [[1, 2]])) ex_ready =
        (Inr (Vec Jtv), ex_ready\<lparr>model := Some [3, 5]\<rparr>) \<and>
      length Jv = length [1, 1, 1 :: real] \<and> length Jtv = length [1, 1 :: real] \<and>
      dot [1, 1, 1] Jv = dot [1, 1] Jtv) \<and>
   (\<exists>Jv Jtv.
      Jvec (ex_env (- 1) True False) [3, 5] [1, 1] None ex_stored =
        (Inr Jv, ex_stored\<lparr>model := Some [3, 5]\<rparr>) \<and>
      Jtvec (ex_env (- 1) True False) [3, 5] [1, 1, 1] None ex_stored =
        (Inr (Vec Jtv), ex_stored\<lparr>model := Some [3, 5]\<rparr>) \<and>
      length Jv = length [1, 1, 1 :: real] \<and> length Jtv = length [1, 1 :: real] \<and>
      dot [1, 1, 1] Jv = dot [1, 1] Jtv)"
proof -
  define d :: "nat \<Rightarrow> nat \<Rightarrow> error + vec" where
    "d = (\<lambda>isrc irx. Inr (take (rx_nD (rxList (srcList ex_ready ! isrc) ! irx))
            (drop (data_offset (srcList ex_ready) isrc irx) [1, 1, 1])))"
  have n: "survey_nD (srcList ex_ready) = 3" "survey_nD (srcList ex_stored) = 3"
    by code_simp+
  have v: "length [1, 1 :: real] = length [3, 5 :: real]"
    by simp
  have w: "length [1, 1, 1 :: real] = survey_nD (srcList ex_ready)"
    "length [1, 1, 1 :: real] = survey_nD (srcList ex_stored)"
    by (simp_all add: n)
  have ns: "\<not> storeJ (ex_env (- 1) False True)" and st: "storeJ (ex_env (- 1) True False)"
    by (simp_all add: ex_env_def)
  have h: "Ainv ex_ready = Some False"
    by code_simp
  have S: "solve_symmetric (ex_env (- 1) False True) False 2"
    by (rule ex_solve_symmetric)
  have C: "adjoint_survey (ex_env (- 1) False True) (Some [3, 5]) [[1, 2]] 2
      (length [3, 5 :: real]) 0 (srcList ex_ready)"
    unfolding len2 by (rule ex_adjoint_survey)
  have D: "Data (ex_env (- 1) False True) (srcList ex_ready) [1, 1, 1] = Inr d"
    by (simp add: ex_env_def ex_Data_def n d_def)
  have sl: "sliced d 0 (srcList ex_ready) [1, 1, 1]"
    by (simp add: d_def ex_ready_srcList ex_rx_def)
  have rx: "concat (map rxList (srcList ex_ready)) \<noteq> []"
    by (simp add: ex_ready_srcList)
  have J: "priv_Jmatrix ex_stored =
      Some (Mat \<lparr>nrow = 3, ncol = 2, ord = C, lines = [[- 3, 0], [- 3, 0], [0, - 10]]\<rparr>)"
    by code_simp
  have ok: "mat_ok \<lparr>nrow = 3, ncol = 2, ord = C, lines = [[- 3, 0], [- 3, 0], [0, - 10 :: real]]\<rparr>"
    by (simp add: mat_ok_def)
  have nr: "nrow \<lparr>nrow = 3, ncol = 2, ord = C, lines = [[- 3, 0], [- 3, 0], [0, - 10 :: real]]\<rparr>
      = survey_nD (srcList ex_stored)"
    and nc: "ncol \<lparr>nrow = 3, ncol = 2, ord = C, lines = [[- 3, 0], [- 3, 0], [0, - 10 :: real]]\<rparr>
      = length [3, 5 :: real]"
    by (simp_all add: n)
  note A = Jtvec_adjoint_of_Jvec [OF v w(1), where env = "ex_env (- 1) False True"
      and h = False and n = 2 and us = "[[1, 2]]" and d = d,
      THEN conjunct1, rule_format, OF ns h S C D sl rx]
  note B = Jtvec_adjoint_of_Jvec [OF v w(2), where env = "ex_env (- 1) True False" and f = None
      and a = "\<lparr>nrow = 3, ncol = 2, ord = C, lines = [[- 3, 0], [- 3, 0], [0, - 10]]\<rparr>",
      THEN conjunct2, rule_format, OF st J ok nr nc]
  from A B show ?thesis
    by (rule conjI)
qed

text \<open>
  C2. With storage and a cached matrix the two products are the dense products,
  scaled by the sign (\<open>stored_products\<close>). Without storage the product of the
  adjoint-state path is not the sign times the dense product with the matrix that
  \<^verbatim>\<open>getJ\<close> assembles, because the full-matrix branch of \<^verbatim>\<open>_Jtvec\<close> leaves out the
  derivative of the right-hand side and does not compute what \<^verbatim>\<open>getADeriv\<close> returns.
  On a fresh small instance with a right-hand side that depends on the model and the
  direction \<open>[1, 1]\<close>, \<^verbatim>\<open>Jvec\<close> returns \<open>[2, 2, 9]\<close> for the sign \<open>-1\<close> where the
  sign times \<^verbatim>\<open>getJ(m) . v\<close> is \<open>[3, 3, 10]\<close>, and \<open>[-2, -2, -9]\<close> for the sign \<open>1\<close>
  where it is \<open>[-3, -3, -10]\<close>. With \<^verbatim>\<open>getADeriv\<close> wrapped in \<^verbatim>\<open>dask.delayed\<close>,
  \<^verbatim>\<open>Jvec\<close> returns and \<^verbatim>\<open>getJ\<close> raises, also when the right-hand side does not
  depend on the model.
\<close>

theorem adjoint_state_product_differs_from_dense:
  "fst (Jvec (ex_env (- 1) False True) [3, 5] [1, 1] None ex_sim) = Inr [2, 2, 9] \<and>
   fst (getJ (ex_env (- 1) False True) [3, 5] None ex_sim) = Inr (Mat \<lparr>nrow = 3, ncol = 2, ord = C, lines = [[- 3, 0], [- 3, 0], [0, - 10]]\<rparr>) \<and>
   map_sum id (vscale (sign (ex_env (- 1) False True))) (np_dot (Mat \<lparr>nrow = 3, ncol = 2, ord = C, lines = [[- 3, 0], [- 3, 0], [0, - 10]]\<rparr>) [1, 1]) =
     Inr [3, 3, 10] \<and>
   fst (Jvec (ex_env 1 False True) [3, 5] [1, 1] None ex_sim) = Inr [- 2, - 2, - 9] \<and>
   fst (getJ (ex_env 1 False True) [3, 5] None ex_sim) = Inr (Mat \<lparr>nrow = 3, ncol = 2, ord = C, lines = [[- 3, 0], [- 3, 0], [0, - 10]]\<rparr>) \<and>
   map_sum id (vscale (sign (ex_env 1 False True))) (np_dot (Mat \<lparr>nrow = 3, ncol = 2, ord = C, lines = [[- 3, 0], [- 3, 0], [0, - 10]]\<rparr>) [1, 1]) =
     Inr [- 3, - 3, - 10] \<and>
   fst (Jvec (ex_env_delayed 1 False False) [3, 5] [1, 1] None ex_sim) = Inr [- 3, - 3, - 10] \<and>
   isl (fst (getJ (ex_env_delayed 1 False False) [3, 5] None ex_sim))"
proof (intro conjI)
  show "fst (Jvec (ex_env (- 1) False True) [3, 5] [1, 1] None ex_sim) = Inr [2, 2, 9]"
    by code_simp
  show "fst (getJ (ex_env (- 1) False True) [3, 5] None ex_sim) = Inr (Mat \<lparr>nrow = 3, ncol = 2, ord = C, lines = [[- 3, 0], [- 3, 0], [0, - 10]]\<rparr>)"
    by code_simp
  show "map_sum id (vscale (sign (ex_env (- 1) False True))) (np_dot (Mat \<lparr>nrow = 3, ncol = 2, ord = C, lines = [[- 3, 0], [- 3, 0], [0, - 10]]\<rparr>) [1, 1]) =
     Inr [3, 3, 10]"
    by code_simp
  show "fst (Jvec (ex_env 1 False True) [3, 5] [1, 1] None ex_sim) = Inr [- 2, - 2, - 9]"
    by code_simp
  show "fst (getJ (ex_env 1 False True) [3, 5] None ex_sim) = Inr (Mat \<lparr>nrow = 3, ncol = 2, ord = C, lines = [[- 3, 0], [- 3, 0], [0, - 10]]\<rparr>)"
    by code_simp
  show "map_sum id (vscale (sign (ex_env 1 False True))) (np_dot (Mat \<lparr>nrow = 3, ncol = 2, ord = C, lines = [[- 3, 0], [- 3, 0], [0, - 10]]\<rparr>) [1, 1]) =
     Inr [- 3, - 3, - 10]"
    by code_simp
  show "fst (Jvec (ex_env_delayed 1 False False) [3, 5] [1, 1] None ex_sim) =
     Inr [- 3, - 3, - 10]"
    by code_simp
  show "isl (fst (getJ (ex_env_delayed 1 False False) [3, 5] None ex_sim))"
    by code_simp
qed

end
